theory Spec2Isabelle
  imports Complex_Main
begin

section \<open>Python values and exceptions\<close>

text \<open>
  The exceptions the modelled functions can raise. A function that may raise returns
  \<open>pyerror + 'a\<close>, with \<open>Inl\<close> carrying the exception.
\<close>

datatype pyerror =
    NameError
  | TypeError
  | ValueError
  | IndexError
  | AttributeError
  | NotImplementedError
  | UnboundLocalError
  | ZeroDivisionError

text \<open>The two numpy dtypes the bases use: \<open>np.float64\<close> and \<open>np.complex128\<close>.\<close>

datatype np_dtype = float64 | complex128

text \<open>Python's \<open>str.lower\<close>, on ASCII strings.\<close>

definition lower_char :: "char \<Rightarrow> char" where
  "lower_char c =
     (let n = (of_char c :: nat) in if 65 \<le> n \<and> n \<le> 90 then char_of (n + 32) else c)"

definition lower :: "string \<Rightarrow> string" where
  "lower s = map lower_char s"

section \<open>numpy array primitives\<close>

text \<open>
  Arrays are modelled along the one axis an operation works on, as lists; an element may
  itself stand for a whole sub-array. \<open>np.copyto(dst, src)\<close> writes \<open>src\<close> into \<open>dst\<close>:
  the first argument is the destination. A source of length one is broadcast, any other
  length mismatch raises ValueError. The function returns the new contents of \<open>dst\<close>.
\<close>

definition copyto :: "'a list \<Rightarrow> 'a list \<Rightarrow> pyerror + 'a list" where
  "copyto dst src =
     (if length src = length dst then Inr src
      else if length src = 1 then Inr (replicate (length dst) (hd src))
      else Inl ValueError)"

text \<open>
  The bounds a slice \<open>start:stop\<close> selects in a sequence of length \<open>n\<close> (Python's
  \<open>slice.indices\<close> with unit step): a negative bound counts from the end, every bound is
  clipped to \<open>0..n\<close>, and a missing stop is \<open>n\<close>. In particular \<open>-0\<close> is \<open>0\<close>, so the
  slice \<open>-k:\<close> with \<open>k = 0\<close> is the whole sequence.
\<close>

definition clip_index :: "nat \<Rightarrow> int \<Rightarrow> nat" where
  "clip_index n i = (if i < 0 then nat (max (i + int n) 0) else min (nat i) n)"

definition slice_bounds :: "int \<Rightarrow> int option \<Rightarrow> nat \<Rightarrow> nat \<times> nat" where
  "slice_bounds start stop n =
     (clip_index n start, (case stop of None \<Rightarrow> n | Some s \<Rightarrow> clip_index n s))"

definition get_slice :: "'a list \<Rightarrow> int \<Rightarrow> int option \<Rightarrow> 'a list" where
  "get_slice xs start stop =
     (case slice_bounds start stop (length xs) of (lo, hi) \<Rightarrow> take (hi - lo) (drop lo xs))"

text \<open>\<open>np.copyto(dst[start:stop], src)\<close>, and \<open>dst[start:stop] = src\<close>: the new \<open>dst\<close>.\<close>

definition copyto_slice :: "'a list \<Rightarrow> int \<Rightarrow> int option \<Rightarrow> 'a list \<Rightarrow> pyerror + 'a list" where
  "copyto_slice dst start stop src =
     (case slice_bounds start stop (length dst) of
        (lo, hi) \<Rightarrow>
          (case copyto (take (hi - lo) (drop lo dst)) src of
             Inl e \<Rightarrow> Inl e
           | Inr v \<Rightarrow> Inr (take lo dst @ v @ drop (lo + length v) dst)))"

text \<open>\<open>np.copyto(dst[start:stop], 0)\<close>: a scalar is broadcast over the slice.\<close>

definition fill_slice :: "'a list \<Rightarrow> int \<Rightarrow> int option \<Rightarrow> 'a \<Rightarrow> 'a list" where
  "fill_slice dst start stop c =
     (case slice_bounds start stop (length dst) of
        (lo, hi) \<Rightarrow> take lo dst @ replicate (hi - lo) c @ drop (lo + (hi - lo)) dst)"

section \<open>Domains, layouts and the distributor (data/distributor.py)\<close>

text \<open>
  What the distributor reads from a domain. Each basis has had its dtypes set, so it
  carries \<open>grid_dtype\<close> and \<open>coeff_dtype\<close>. The attributes \<open>global_coeff_shape\<close> and
  \<open>global_grid_shape(scales)\<close> are read by \<open>Layout.global_shape\<close> but are not defined by
  the \<open>Domain\<close> class of the source: they are fields of the record, given from outside.
  \<open>domain.dim\<close> is \<open>len(bases)\<close>.
\<close>

record basis_dtypes =
  grid_dtype :: np_dtype
  coeff_dtype :: np_dtype

record 's domain =
  bases :: "basis_dtypes list"
  global_coeff_shape :: "int list"
  global_grid_shape :: "'s \<Rightarrow> int list"

definition dim :: "'s domain \<Rightarrow> nat" where
  "dim dmn = length (bases dmn)"

text \<open>
  A \<open>Layout\<close> object: the per-axis locality and grid-space flags, the dtype, the index the
  distributor assigns after construction, and the mesh and coordinates extended to the
  domain dimension. The reference to the domain is passed to the queries instead of
  being stored.
\<close>

record layout =
  local :: "bool list"
  grid_space :: "bool list"
  dtype :: np_dtype
  index :: "nat option"
  ext_mesh :: "int list"
  ext_coords :: "int list"

text \<open>
  numpy's boolean-mask assignment \<open>arr[mask] = vals\<close>: the selected positions receive the
  values in order. The number of values must equal the number of selected positions,
  except that a single value is broadcast; a mask of another length than the array
  raises IndexError.
\<close>

fun scatter :: "'a list \<Rightarrow> bool list \<Rightarrow> 'a list \<Rightarrow> 'a list" where
  "scatter (a # as) (True # ms) (v # vs) = v # scatter as ms vs"
| "scatter (a # as) (False # ms) vs = a # scatter as ms vs"
| "scatter as ms vs = as"

definition masked_set :: "'a list \<Rightarrow> bool list \<Rightarrow> 'a list \<Rightarrow> pyerror + 'a list" where
  "masked_set arr msk vals =
     (let n = length (filter (\<lambda>b. b) msk) in
      if length msk \<noteq> length arr then Inl IndexError
      else if length vals = n then Inr (scatter arr msk vals)
      else if length vals = 1 then Inr (scatter arr msk (replicate n (hd vals)))
      else Inl ValueError)"

text \<open>
  \<open>Layout.__init__(self, domain, mesh, coords, local, grid_space, dtype)\<close>, with
  \<open>d = domain.dim\<close>: \<open>ext_mesh\<close> is ones with the mesh at the distributed axes,
  \<open>ext_coords\<close> is zeros with the coordinates at the distributed axes.
\<close>

definition Layout_init ::
  "nat \<Rightarrow> int list \<Rightarrow> int list \<Rightarrow> bool list \<Rightarrow> bool list \<Rightarrow> np_dtype \<Rightarrow> pyerror + layout" where
  "Layout_init d mesh coords loc gs dt =
     (case masked_set (replicate d 1) (map Not loc) mesh of
        Inl e \<Rightarrow> Inl e
      | Inr em \<Rightarrow>
          (case masked_set (replicate d 0) (map Not loc) coords of
             Inl e \<Rightarrow> Inl e
           | Inr ec \<Rightarrow>
               Inr \<lparr>local = loc, grid_space = gs, dtype = dt, index = None,
                    ext_mesh = em, ext_coords = ec\<rparr>))"

text \<open>
  The layout queries. The arrays of one layout all have the length of the domain
  dimension; they are combined position by position. \<open>np.ceil(a / b)\<close> and
  \<open>np.floor(a / b)\<close> are taken exactly, as they are for the array sizes in use (far
  below \<open>2^53\<close>).
\<close>

definition global_shape :: "'s domain \<Rightarrow> layout \<Rightarrow> 's \<Rightarrow> int list" where
  "global_shape dmn l scales =
     map (\<lambda>(g, c, gr). if g then gr else c)
       (zip (grid_space l) (zip (global_coeff_shape dmn) (global_grid_shape dmn scales)))"

definition ceil_div :: "int \<Rightarrow> int \<Rightarrow> int" where
  "ceil_div a b = - ((- a) div b)"

definition blocks :: "'s domain \<Rightarrow> layout \<Rightarrow> 's \<Rightarrow> int list" where
  "blocks dmn l scales =
     map (\<lambda>(g, m). ceil_div g m) (zip (global_shape dmn l scales) (ext_mesh l))"

definition start :: "'s domain \<Rightarrow> layout \<Rightarrow> 's \<Rightarrow> int list" where
  "start dmn l scales =
     map (\<lambda>(c, b). c * b) (zip (ext_coords l) (blocks dmn l scales))"

text \<open>
  One axis of \<open>local_shape\<close>: the block size, replaced by the remainder where the
  coordinate equals the cut and by zero where it exceeds the cut.
\<close>

definition local_size :: "int \<Rightarrow> int \<Rightarrow> int \<Rightarrow> int" where
  "local_size g b c =
     (let cut = g div b in
      if c > cut then 0 else if c = cut then g - cut * b else b)"

definition local_shape :: "'s domain \<Rightarrow> layout \<Rightarrow> 's \<Rightarrow> int list" where
  "local_shape dmn l scales =
     map (\<lambda>(g, b, c). local_size g b c)
       (zip (global_shape dmn l scales) (zip (blocks dmn l scales) (ext_coords l)))"

text \<open>
  The coordinates of all ranks of the Cartesian communicator over a mesh: every
  coordinate \<open>c\<close> of a mesh dimension of size \<open>m\<close> runs over \<open>0..m-1\<close>.
\<close>

definition all_coords :: "int list \<Rightarrow> int list list" where
  "all_coords mesh = product_lists (map (\<lambda>m. [0..m - 1]) mesh)"

text \<open>
  The number of local elements of the layout built on the rank with coordinates \<open>cs\<close>:
  the product of its \<open>local_shape\<close>; \<open>None\<close> if the layout cannot be built there.
\<close>

definition rank_elements ::
  "'s domain \<Rightarrow> int list \<Rightarrow> bool list \<Rightarrow> bool list \<Rightarrow> np_dtype \<Rightarrow> 's \<Rightarrow> int list \<Rightarrow> int option" where
  "rank_elements dmn mesh loc gs dt scales cs =
     (case Layout_init (dim dmn) mesh cs loc gs dt of
        Inl e \<Rightarrow> None
      | Inr l \<Rightarrow> Some (prod_list (local_shape dmn l scales)))"

text \<open>The shape computation on plain lists: global shape, extended mesh and coordinates.\<close>

definition shape_of :: "int list \<Rightarrow> int list \<Rightarrow> int list \<Rightarrow> int list" where
  "shape_of gsh em ec =
     map (\<lambda>(g, b, c). local_size g b c)
       (zip gsh (zip (map (\<lambda>(g, m). ceil_div g m) (zip gsh em)) ec))"

text \<open>
  The two-dimensional domain of the example: global coefficient shape \<open>[9, 8]\<close>.
\<close>

definition example_domain :: "unit domain" where
  "example_domain = \<lparr>bases = [\<lparr>grid_dtype = complex128, coeff_dtype = complex128\<rparr>,
                       \<lparr>grid_dtype = complex128, coeff_dtype = complex128\<rparr>],
             global_coeff_shape = [9, 8], global_grid_shape = (\<lambda>u. [9, 8])\<rparr>"

text \<open>
  The coefficient layout of that domain on the rank with coordinate \<open>r\<close> of the mesh
  \<open>[4]\<close>, as \<open>Layout.__init__\<close> builds it.
\<close>

definition example_layout :: "int \<Rightarrow> layout" where
  "example_layout r = \<lparr>local = [False, True], grid_space = [False, False], dtype = complex128, index = None,
          ext_mesh = [4, 1], ext_coords = [r, 0]\<rparr>"

text \<open>
  The paths. A \<open>Transform\<close> keeps its two layouts, the axis and the basis; a \<open>Transpose\<close>
  keeps its two layouts and the axis (its sub-communicator is not modelled).
  \<open>Transpose.__init__\<close> writes \<open>remain_dims[axis] = 1\<close> into a list of length
  \<open>comm_cart.dim\<close>, the number of mesh dimensions: IndexError when the axis is not below it.
\<close>

datatype path =
    Transform layout layout nat basis_dtypes
  | Transpose layout layout nat

definition Transpose_init :: "nat \<Rightarrow> layout \<Rightarrow> layout \<Rightarrow> nat \<Rightarrow> pyerror + path" where
  "Transpose_init cart_dim layout0 layout1 axis =
     (if axis < cart_dim then Inr (Transpose layout0 layout1 axis) else Inl IndexError)"

text \<open>
  Modelled from the spec: \<open>rev_enumerate\<close> (tools/general.py) is not in the source; the
  spec has the loop find the largest-indexed axis in coefficient space, so it enumerates
  the bases with their indices in reverse order. The inner loop
  \<open>for d, basis in rev_enumerate(domain.bases)\<close> then stops at the first axis, counting
  down from the last, whose \<open>grid_space\<close> flag is false; \<open>scan_axes gs n\<close> scans the axes
  \<open>n-1, ..., 0\<close>.
\<close>

fun scan_axes :: "bool list \<Rightarrow> nat \<Rightarrow> nat option" where
  "scan_axes gs 0 = None"
| "scan_axes gs (Suc d) = (if \<not> gs ! d then Some d else scan_axes gs d)"

text \<open>
  The variables of \<open>_build_layouts\<close> that the outer loop changes: the lists \<open>local\<close> and
  \<open>grid_space\<close>, \<open>dtype\<close>, \<open>self.layouts\<close>, \<open>self.paths\<close>, and the loop-carried
  \<open>layout_i\<close> and \<open>path_i\<close>, unbound before the first assignment.
\<close>

record build_state =
  st_local :: "bool list"
  st_grid_space :: "bool list"
  st_dtype :: np_dtype
  layouts :: "layout list"
  paths :: "path list"
  layout_i :: "layout option"
  path_i :: "path option"

text \<open>
  Setting \<open>layout_i.index = i\<close> on an object that is already in the lists: every entry
  that is this object shows the new index. An object is identified by its value, which
  the distinct indices make unique.
\<close>

definition reindex :: "layout \<Rightarrow> nat \<Rightarrow> layout \<Rightarrow> layout" where
  "reindex obj i l = (if l = obj then l\<lparr>index := Some i\<rparr> else l)"

fun reindex_path :: "layout \<Rightarrow> nat \<Rightarrow> path \<Rightarrow> path" where
  "reindex_path obj i (Transform l0 l1 d b) = Transform (reindex obj i l0) (reindex obj i l1) d b"
| "reindex_path obj i (Transpose l0 l1 d) = Transpose (reindex obj i l0) (reindex obj i l1) d"

text \<open>
  One pass of the outer loop, for the index \<open>i\<close>. When an axis is found, the new layout
  and path are built and appended; the path's second layout is the new layout object, so
  it shows the index assigned just after. When no axis is left, \<open>layout_i\<close> and \<open>path_i\<close>
  keep their previous values (UnboundLocalError if there are none), the old object is
  re-indexed and appended again.
\<close>

definition build_step ::
  "'s domain \<Rightarrow> int list \<Rightarrow> int list \<Rightarrow> bool \<Rightarrow> nat \<Rightarrow> build_state \<Rightarrow> pyerror + build_state" where
  "build_step dmn mesh coords dry_run i st =
     (case scan_axes (st_grid_space st) (dim dmn) of
        None \<Rightarrow>
          (case layout_i st of
             None \<Rightarrow> Inl UnboundLocalError
           | Some obj \<Rightarrow>
               (let ls = map (reindex obj i) (layouts st);
                    ps = map (reindex_path obj i) (paths st);
                    obj' = obj\<lparr>index := Some i\<rparr>;
                    p' = map_option (reindex_path obj i) (path_i st)
                in if dry_run then
                     Inr (st\<lparr>layouts := ls @ [obj'], paths := ps, layout_i := Some obj', path_i := p'\<rparr>)
                   else
                     (case p' of
                        None \<Rightarrow> Inl UnboundLocalError
                      | Some p \<Rightarrow>
                          Inr (st\<lparr>layouts := ls @ [obj'], paths := ps @ [p],
                                  layout_i := Some obj', path_i := p'\<rparr>))))
      | Some d \<Rightarrow>
          (if st_local st ! d then
             (let gs = (st_grid_space st)[d := True];
                  dt = grid_dtype (bases dmn ! d)
              in case Layout_init (dim dmn) mesh coords (st_local st) gs dt of
                   Inl e \<Rightarrow> Inl e
                 | Inr l \<Rightarrow>
                     (let l' = l\<lparr>index := Some i\<rparr>;
                          p = Transform (last (layouts st)) l' d (bases dmn ! d)
                      in Inr (st\<lparr>st_grid_space := gs, st_dtype := dt,
                                 layouts := layouts st @ [l'],
                                 paths := (if dry_run then paths st else paths st @ [p]),
                                 layout_i := Some l',
                                 path_i := (if dry_run then path_i st else Some p)\<rparr>)))
           else if length (st_local st) \<le> d + 1 then Inl IndexError
           else
             (let loc = (st_local st)[d := True, d + 1 := False]
              in case Layout_init (dim dmn) mesh coords loc (st_grid_space st) (st_dtype st) of
                   Inl e \<Rightarrow> Inl e
                 | Inr l \<Rightarrow>
                     (let l' = l\<lparr>index := Some i\<rparr> in
                      if dry_run then
                        Inr (st\<lparr>st_local := loc, layouts := layouts st @ [l'],
                                 layout_i := Some l'\<rparr>)
                      else
                        (case Transpose_init (length mesh) (last (layouts st)) l' d of
                           Inl e \<Rightarrow> Inl e
                         | Inr p \<Rightarrow>
                             Inr (st\<lparr>st_local := loc, layouts := layouts st @ [l'],
                                     paths := paths st @ [p],
                                     layout_i := Some l', path_i := Some p\<rparr>))))))"

text \<open>The outer loop \<open>for i in range(1, R+D+1)\<close>: \<open>n\<close> passes starting at index \<open>i\<close>.\<close>

fun build_loop ::
  "'s domain \<Rightarrow> int list \<Rightarrow> int list \<Rightarrow> bool \<Rightarrow> nat \<Rightarrow> nat \<Rightarrow> build_state \<Rightarrow> pyerror + build_state" where
  "build_loop dmn mesh coords dry_run i 0 st = Inr st"
| "build_loop dmn mesh coords dry_run i (Suc n) st =
     (case build_step dmn mesh coords dry_run i st of
        Inl e \<Rightarrow> Inl e
      | Inr st' \<Rightarrow> build_loop dmn mesh coords dry_run (Suc i) n st')"

text \<open>
  \<open>Distributor._build_layouts(self, domain, dry_run)\<close>, with \<open>D = domain.dim\<close> and
  \<open>R = mesh.size\<close>. \<open>domain.bases[-1]\<close> raises IndexError on an empty list of bases, and
  \<open>[True] * (D-R)\<close> is empty when \<open>D - R\<close> is negative. The result is the final state, whose
  \<open>layouts\<close> and \<open>paths\<close> are the attributes of the distributor.
\<close>

definition build_layouts ::
  "'s domain \<Rightarrow> int list \<Rightarrow> int list \<Rightarrow> bool \<Rightarrow> pyerror + build_state" where
  "build_layouts dmn mesh coords dry_run =
     (let D = dim dmn; R = length mesh;
          loc = replicate R False @ replicate (D - R) True;
          gs = replicate D False
      in if bases dmn = [] then Inl IndexError
         else
           (let dt = coeff_dtype (last (bases dmn)) in
            case Layout_init D mesh coords loc gs dt of
              Inl e \<Rightarrow> Inl e
            | Inr l \<Rightarrow>
                build_loop dmn mesh coords dry_run 1 (R + D)
                  \<lparr>st_local = loc, st_grid_space = gs, st_dtype = dt,
                   layouts = [l\<lparr>index := Some 0\<rparr>], paths = [],
                   layout_i = None, path_i = None\<rparr>))"

text \<open>
  \<open>Distributor.__init__(self, domain, mesh)\<close> for an explicit mesh: \<open>nproc\<close> is
  \<open>comm_world.size\<close>, the number of processes, and \<open>coords\<close> are the coordinates of this rank in the Cartesian
  communicator over the squeezed mesh.
\<close>

definition Distributor_init ::
  "'s domain \<Rightarrow> int list \<Rightarrow> int \<Rightarrow> int list \<Rightarrow> pyerror + build_state" where
  "Distributor_init dmn mesh0 nproc coords =
     (let mesh = filter (\<lambda>i. i > 1) mesh0 in
      if length mesh \<ge> dim dmn then Inl ValueError
      else if prod_list mesh \<noteq> nproc then Inl ValueError
      else build_layouts dmn mesh coords False)"

text \<open>
  A three-dimensional domain for the examples, with real grid data: the dtypes are
  threaded through the bases in order, so the first basis (Fourier) takes real grid data
  to complex coefficients and the other two work on complex data.
\<close>

definition example_domain3 :: "unit domain" where
  "example_domain3 =
     \<lparr>bases = [\<lparr>grid_dtype = float64, coeff_dtype = complex128\<rparr>,
               \<lparr>grid_dtype = complex128, coeff_dtype = complex128\<rparr>,
               \<lparr>grid_dtype = complex128, coeff_dtype = complex128\<rparr>],
      global_coeff_shape = [5, 8, 9], global_grid_shape = (\<lambda>u. [8, 8, 9])\<rparr>"

subsection \<open>The layout chain in closed form\<close>

text \<open>
  What the construction is shown to produce, for a domain of dimension \<open>D\<close> and a mesh of
  \<open>R < D\<close> dimensions. Layout \<open>k\<close> has \<open>ngrid D R k\<close> trailing axes in grid space, and
  \<open>npose D R k\<close> transposes lead to it: first \<open>D - R\<close> transforms of the local tail, then
  transposes and transforms alternate. Its one local axis among the first \<open>R + 1\<close> is
  the axis \<open>R - npose D R k\<close>.
\<close>

definition ngrid :: "nat \<Rightarrow> nat \<Rightarrow> nat \<Rightarrow> nat" where
  "ngrid D R k = (if k \<le> D - R then k else D - R + (k - (D - R)) div 2)"

definition npose :: "nat \<Rightarrow> nat \<Rightarrow> nat \<Rightarrow> nat" where
  "npose D R k = (if k \<le> D - R then 0 else (k - (D - R) + 1) div 2)"

definition chain_local :: "nat \<Rightarrow> nat \<Rightarrow> nat \<Rightarrow> bool list" where
  "chain_local D R k = map (\<lambda>d. d = R - npose D R k \<or> R < d) [0..<D]"

definition chain_grid :: "nat \<Rightarrow> nat \<Rightarrow> nat \<Rightarrow> bool list" where
  "chain_grid D R k = map (\<lambda>d. D - ngrid D R k \<le> d) [0..<D]"

definition chain_dtype :: "'s domain \<Rightarrow> nat \<Rightarrow> nat \<Rightarrow> np_dtype" where
  "chain_dtype dmn R k =
     (if ngrid (dim dmn) R k = 0 then coeff_dtype (last (bases dmn))
      else grid_dtype (bases dmn ! (dim dmn - ngrid (dim dmn) R k)))"

definition chain_layout :: "'s domain \<Rightarrow> int list \<Rightarrow> int list \<Rightarrow> nat \<Rightarrow> layout" where
  "chain_layout dmn mesh coords k =
     \<lparr>local = chain_local (dim dmn) (length mesh) k,
      grid_space = chain_grid (dim dmn) (length mesh) k,
      dtype = chain_dtype dmn (length mesh) k,
      index = Some k,
      ext_mesh = scatter (replicate (dim dmn) 1)
                   (map Not (chain_local (dim dmn) (length mesh) k)) mesh,
      ext_coords = scatter (replicate (dim dmn) 0)
                     (map Not (chain_local (dim dmn) (length mesh) k)) coords\<rparr>"

text \<open>The axis the step from layout \<open>k\<close> works on, and the path of that step.\<close>

definition chain_axis :: "nat \<Rightarrow> nat \<Rightarrow> nat \<Rightarrow> nat" where
  "chain_axis D R k = D - ngrid D R k - 1"

definition chain_path :: "'s domain \<Rightarrow> int list \<Rightarrow> int list \<Rightarrow> nat \<Rightarrow> path" where
  "chain_path dmn mesh coords k =
     (let d = chain_axis (dim dmn) (length mesh) k in
      if chain_local (dim dmn) (length mesh) k ! d then
        Transform (chain_layout dmn mesh coords k) (chain_layout dmn mesh coords (Suc k)) d
          (bases dmn ! d)
      else
        Transpose (chain_layout dmn mesh coords k) (chain_layout dmn mesh coords (Suc k)) d)"

definition chain_state :: "'s domain \<Rightarrow> int list \<Rightarrow> int list \<Rightarrow> nat \<Rightarrow> build_state" where
  "chain_state dmn mesh coords k =
     \<lparr>st_local = chain_local (dim dmn) (length mesh) k,
      st_grid_space = chain_grid (dim dmn) (length mesh) k,
      st_dtype = chain_dtype dmn (length mesh) k,
      layouts = map (chain_layout dmn mesh coords) [0..<Suc k],
      paths = map (chain_path dmn mesh coords) [0..<k],
      layout_i = (if k = 0 then None else Some (chain_layout dmn mesh coords k)),
      path_i = (if k = 0 then None else Some (chain_path dmn mesh coords (k - 1)))\<rparr>"

subsection \<open>Atomic changes between adjacent layouts\<close>

text \<open>
  A transform step flips \<open>grid_space[d]\<close> from false to true on one axis \<open>d\<close> that is
  local, and changes no other flag. A transpose step flips \<open>local[d]\<close> from false to true
  and \<open>local[d+1]\<close> from true to false, and changes no other flag and not the dtype.
\<close>

definition is_transform_step :: "layout \<Rightarrow> layout \<Rightarrow> bool" where
  "is_transform_step l0 l1 =
     (\<exists>d \<in> {..<length (grid_space l0)}.
        \<not> grid_space l0 ! d \<and> local l0 ! d
        \<and> grid_space l1 = (grid_space l0)[d := True]
        \<and> local l1 = local l0)"

definition is_transpose_step :: "layout \<Rightarrow> layout \<Rightarrow> bool" where
  "is_transpose_step l0 l1 =
     (\<exists>d \<in> {..<length (local l0) - 1}.
        \<not> local l0 ! d \<and> local l0 ! (d + 1)
        \<and> local l1 = (local l0)[d := True, d + 1 := False]
        \<and> grid_space l1 = grid_space l0
        \<and> dtype l1 = dtype l0)"

section \<open>Fields (data/field.py)\<close>

text \<open>
  A \<open>Field\<close> owns a buffer and a current layout. Its \<open>data\<close> attribute is a view of the
  buffer, recomputed by the \<open>layout\<close> setter as \<open>layout.view_data(self._buffer)\<close>; being a
  view, it is modelled as a function of the layout and the buffer.
\<close>

record 'a field =
  layout_attr :: layout
  buffer :: "'a list"

text \<open>
  Modelled from the spec: \<open>Layout.view_data\<close> is not defined in the source. The spec
  derives the typed view from the buffer, the layout's local shape and its dtype; the
  model keeps the element count \<open>count l\<close> of the layout and returns that many leading
  elements of the buffer.
\<close>

definition view_data :: "(layout \<Rightarrow> nat) \<Rightarrow> layout \<Rightarrow> 'a list \<Rightarrow> 'a list" where
  "view_data count l buf = take (count l) buf"

definition field_data :: "(layout \<Rightarrow> 'a list \<Rightarrow> 'a list) \<Rightarrow> 'a field \<Rightarrow> 'a list" where
  "field_data vd self = vd (layout_attr self) (buffer self)"

definition layout_setter :: "'a field \<Rightarrow> layout \<Rightarrow> 'a field" where
  "layout_setter self l = self\<lparr>layout_attr := l\<rparr>"

text \<open>
  The key of \<open>field[key] = data\<close> is a layout name or a layout object. For a name the
  source evaluates \<open>self.domain.distributor.string_references[layout]\<close>, where
  \<open>self.domain\<close> is the \<open>weakref.ref\<close> object stored by \<open>__init__\<close>: the attribute access
  on the weak reference raises AttributeError.
\<close>

datatype layout_key = Name string | Obj layout

definition resolve_key :: "layout_key \<Rightarrow> pyerror + layout" where
  "resolve_key key = (case key of Name s \<Rightarrow> Inl AttributeError | Obj l \<Rightarrow> Inr l)"

text \<open>
  \<open>Field.__setitem__(self, layout, data)\<close>: sets the layout, then calls
  \<open>np.copyto(data, self.data)\<close>. The result is the field and the array \<open>data\<close> after the call.
\<close>

definition Field_setitem ::
  "(layout \<Rightarrow> 'a list \<Rightarrow> 'a list) \<Rightarrow> 'a field \<Rightarrow> layout_key \<Rightarrow> 'a list
     \<Rightarrow> pyerror + ('a field \<times> 'a list)" where
  "Field_setitem vd self key data =
     (case resolve_key key of
        Inl e \<Rightarrow> Inl e
      | Inr l \<Rightarrow>
          (let self' = layout_setter self l in
           case copyto data (field_data vd self') of
             Inl e \<Rightarrow> Inl e
           | Inr data' \<Rightarrow> Inr (self', data')))"

section \<open>Basis construction and library selection (pde/basis.py)\<close>

datatype basis_class = Chebyshev | Fourier | SinCos

text \<open>
  The transform methods each class defines under the names \<open>_forward_<library>\<close> and
  \<open>_backward_<library>\<close>. All three classes define the scipy and the fftw pair.
\<close>

definition transform_methods :: "basis_class \<Rightarrow> string list" where
  "transform_methods c =
     [''_forward_scipy'', ''_backward_scipy'', ''_forward_fftw'', ''_backward_fftw'']"

text \<open>A bound method is named by the class that defines it and its attribute name.\<close>

type_synonym bound_method = "basis_class \<times> string"

record basis =
  basis_cls :: basis_class
  base_grid_size :: int
  interval :: "real \<times> real"
  dealias :: real
  name :: "string option"
  library_attr :: "string option"
  forward :: "bound_method option"
  backward :: "bound_method option"

text \<open>\<open>getattr(self, attr)\<close> for the transform methods: AttributeError when the class has none.\<close>

definition getattr :: "basis \<Rightarrow> string \<Rightarrow> pyerror + bound_method" where
  "getattr self attr =
     (if attr \<in> set (transform_methods (basis_cls self)) then Inr (basis_cls self, attr)
      else Inl AttributeError)"

text \<open>
  The setter of the \<open>library\<close> property of \<open>Basis\<close>: it binds \<open>forward\<close>, then
  \<open>backward\<close>, then stores the lower-cased name.
\<close>

definition library_setter :: "basis \<Rightarrow> string \<Rightarrow> pyerror + basis" where
  "library_setter self v =
     (case getattr self (''_forward_'' @ lower v) of
        Inl e \<Rightarrow> Inl e
      | Inr f \<Rightarrow>
          (case getattr (self\<lparr>forward := Some f\<rparr>) (''_backward_'' @ lower v) of
             Inl e \<Rightarrow> Inl e
           | Inr g \<Rightarrow>
               Inr (self\<lparr>forward := Some f, backward := Some g,
                         library_attr := Some (lower v)\<rparr>)))"

text \<open>The object before \<open>__init__\<close> has assigned the library.\<close>

definition new_basis ::
  "basis_class \<Rightarrow> int \<Rightarrow> real \<times> real \<Rightarrow> real \<Rightarrow> string option \<Rightarrow> basis" where
  "new_basis c n iv d nm =
     \<lparr>basis_cls = c, base_grid_size = n, interval = iv, dealias = d, name = nm,
      library_attr = None, forward = None, backward = None\<rparr>"

text \<open>
  The three constructors. \<open>DEFAULT_LIBRARY\<close> is the module-level configuration value
  \<open>config['transforms'].get('DEFAULT_LIBRARY')\<close>, passed explicitly. \<open>Chebyshev\<close> and
  \<open>Fourier\<close> end with \<open>self.library = DEFAULT_LIBRARY\<close>; in \<open>SinCos\<close> that line is
  commented out and replaced by \<open>self.library = 'scipy'\<close>.
\<close>

definition Chebyshev_init ::
  "string \<Rightarrow> int \<Rightarrow> real \<times> real \<Rightarrow> real \<Rightarrow> string option \<Rightarrow> pyerror + basis" where
  "Chebyshev_init DEFAULT_LIBRARY n iv d nm =
     library_setter (new_basis Chebyshev n iv d nm) DEFAULT_LIBRARY"

definition Fourier_init ::
  "string \<Rightarrow> int \<Rightarrow> real \<times> real \<Rightarrow> real \<Rightarrow> string option \<Rightarrow> pyerror + basis" where
  "Fourier_init DEFAULT_LIBRARY n iv d nm =
     library_setter (new_basis Fourier n iv d nm) DEFAULT_LIBRARY"

definition SinCos_init ::
  "string \<Rightarrow> int \<Rightarrow> real \<times> real \<Rightarrow> real \<Rightarrow> string option \<Rightarrow> pyerror + basis" where
  "SinCos_init DEFAULT_LIBRARY n iv d nm =
     library_setter (new_basis SinCos n iv d nm) ''scipy''"

section \<open>Chebyshev differentiation (pde/basis.py)\<close>

text \<open>
  Name resolution. A function body sees its parameters and local variables, the names of
  enclosing functions, the module globals and the builtins; any other name raises
  NameError when it is read.
\<close>

datatype pyval = PArr "real list" | PInt int | PObj

definition resolve :: "(string \<times> pyval) list \<Rightarrow> string \<Rightarrow> pyerror + pyval" where
  "resolve scope nm = (case map_of scope nm of None \<Rightarrow> Inl NameError | Some v \<Rightarrow> Inr v)"

definition as_array :: "pyval \<Rightarrow> pyerror + real list" where
  "as_array v = (case v of PArr a \<Rightarrow> Inr a | _ \<Rightarrow> Inl TypeError)"

text \<open>The names bound at module level in \<open>pde/basis.py\<close>, and the builtins the body uses.\<close>

definition module_names :: "string list" where
  "module_names =
     [''logging'', ''math'', ''np'', ''pi'', ''sparse'', ''fftpack'', ''operators'', ''fftw'',
      ''config'', ''CachedAttribute'', ''CachedMethod'', ''interleaved_view'',
      ''reshape_vector'', ''axslice'', ''logger'', ''DEFAULT_LIBRARY'', ''FFTW_RIGOR'',
      ''Basis'', ''TransverseBasis'', ''ImplicitBasis'', ''Chebyshev'', ''Fourier'',
      ''SinCos'', ''Compound'', ''len'', ''range'']"

text \<open>
  The scope of \<open>DifferentiateChebyshev.explicit_form(self, input, output, axis)\<close>: its four
  parameters, the local \<open>DifferentiateChebyshev\<close> of the enclosing method, and the module
  names. The locals \<open>a\<close>, \<open>b\<close>, \<open>N\<close> and \<open>i\<close> are bound only by the assignments that read
  \<open>cdata\<close> and \<open>cderiv\<close>.
\<close>

definition explicit_form_scope :: "real list \<Rightarrow> real list \<Rightarrow> int \<Rightarrow> (string \<times> pyval) list" where
  "explicit_form_scope input output axis =
     [(''self'', PObj), (''input'', PArr input), (''output'', PArr output), (''axis'', PInt axis),
      (''DifferentiateChebyshev'', PObj)]
     @ map (\<lambda>n. (n, PObj)) module_names"

text \<open>
  The recursion of the body, for one-dimensional arrays of length \<open>coeff_size\<close> at least 3:
  \<open>for i in range(N-2, 0, -1): b[i] = 2*(i+1)*a[i+1] + b[i+2]\<close>.
\<close>

fun recursion_loop :: "real list \<Rightarrow> real list \<Rightarrow> nat \<Rightarrow> real list" where
  "recursion_loop a b 0 = b"
| "recursion_loop a b (Suc i) =
     recursion_loop a (b[Suc i := 2 * (real (Suc i) + 1) * a ! (Suc i + 1) + b ! (Suc i + 2)]) i"

definition recursion :: "real \<Rightarrow> nat \<Rightarrow> real list \<Rightarrow> real list \<Rightarrow> real list" where
  "recursion stretch coeff_size a b =
     (let N = coeff_size - 1;
          b1 = b[N := 0];
          b2 = b1[N - 1 := 2 * real N * a ! N];
          b3 = recursion_loop a b2 (N - 2);
          b4 = b3[0 := a ! 1 + b3 ! 2 / 2]
      in map (\<lambda>x. x / stretch) b4)"

text \<open>
  \<open>explicit_form\<close>, with \<open>stretch = self.basis._grid_stretch\<close> and
  \<open>coeff_size = self.basis.coeff_size\<close>. The parameters are named \<open>input\<close> and \<open>output\<close>;
  the body reads \<open>cdata\<close> and \<open>cderiv\<close>. The arrays are one-dimensional, so
  \<open>len(cdata.shape) - 1\<close> is \<open>1 - 1\<close> in the axis check. The result is the
  differentiated array.
\<close>

definition explicit_form ::
  "real \<Rightarrow> nat \<Rightarrow> real list \<Rightarrow> real list \<Rightarrow> int \<Rightarrow> pyerror + real list" where
  "explicit_form stretch coeff_size input output axis =
     (let scope = explicit_form_scope input output axis;
          axis_check =
            (if axis \<noteq> - 1 then
               (case resolve scope ''cdata'' of
                  Inl e \<Rightarrow> Inl e
                | Inr c \<Rightarrow> if axis \<noteq> 1 - 1 then Inl NotImplementedError else Inr ())
             else Inr ())
      in case axis_check of
           Inl e \<Rightarrow> Inl e
         | Inr u \<Rightarrow>
             (case resolve scope ''cdata'' of
                Inl e \<Rightarrow> Inl e
              | Inr av \<Rightarrow>
                  (case resolve scope ''cderiv'' of
                     Inl e \<Rightarrow> Inl e
                   | Inr bv \<Rightarrow>
                       (case as_array av of
                          Inl e \<Rightarrow> Inl e
                        | Inr a \<Rightarrow>
                            (case as_array bv of
                               Inl e \<Rightarrow> Inl e
                             | Inr b \<Rightarrow> Inr (recursion stretch coeff_size a b))))))"

section \<open>Compound basis interpolation (pde/basis.py)\<close>

text \<open>
  A subbasis as \<open>Compound\<close> uses it: its interval, its \<open>coeff_size\<close> and its own
  \<open>interp_vector\<close>. A compound basis is the list of its subbases.
\<close>

record 'c subbasis =
  sub_interval :: "real \<times> real"
  coeff_size :: nat
  sub_interp_vector :: "real \<Rightarrow> 'c list"

text \<open>\<open>Compound.coeff_start(self, index)\<close>: the summed sizes of \<open>subbases[:index]\<close>.\<close>

definition coeff_start :: "'c subbasis list \<Rightarrow> nat \<Rightarrow> nat" where
  "coeff_start self i = sum_list (map coeff_size (take i self))"

definition Compound_coeff_size :: "'c subbasis list \<Rightarrow> nat" where
  "Compound_coeff_size self = sum_list (map coeff_size self)"

text \<open>
  An attribute value that is subscripted: a bound method or a sequence. Subscripting a
  bound method raises TypeError; a sequence is indexed, IndexError out of range.
\<close>

datatype attr_value = Method "nat \<Rightarrow> nat" | Sequence "nat list"

definition getitem :: "attr_value \<Rightarrow> nat \<Rightarrow> pyerror + nat" where
  "getitem v i =
     (case v of
        Method f \<Rightarrow> Inl TypeError
      | Sequence xs \<Rightarrow> if i < length xs then Inr (xs ! i) else Inl IndexError)"

text \<open>\<open>self.coeff_start\<close> is the method defined by \<open>def coeff_start(self, index)\<close>.\<close>

definition coeff_start_attr :: "'c subbasis list \<Rightarrow> attr_value" where
  "coeff_start_attr self = Method (coeff_start self)"

text \<open>
  \<open>Compound.interp_vector(self, position)\<close>: the loop over \<open>enumerate(self.subbases)\<close>,
  taking the first subbasis whose interval contains the position; there it reads
  \<open>self.coeff_start[i]\<close> and \<open>self.coeff_start[i+1]\<close> and assigns the slice. After the
  loop it raises ValueError.
\<close>

fun interp_scan ::
  "('c::zero) subbasis list \<Rightarrow> nat \<Rightarrow> 'c subbasis list \<Rightarrow> real \<Rightarrow> pyerror + 'c list" where
  "interp_scan self i [] position = Inl ValueError"
| "interp_scan self i (b # bs) position =
     (if fst (sub_interval b) \<le> position \<and> position \<le> snd (sub_interval b) then
        (case getitem (coeff_start_attr self) i of
           Inl e \<Rightarrow> Inl e
         | Inr lo \<Rightarrow>
             (case getitem (coeff_start_attr self) (i + 1) of
                Inl e \<Rightarrow> Inl e
              | Inr hi \<Rightarrow>
                  copyto_slice (replicate (Compound_coeff_size self) 0)
                    (int lo) (Some (int hi)) (sub_interp_vector b position)))
      else interp_scan self (Suc i) bs position)"

definition interp_vector :: "('c::zero) subbasis list \<Rightarrow> real \<Rightarrow> pyerror + 'c list" where
  "interp_vector self position = interp_scan self 0 self position"

section \<open>Coefficient resizing (pde/basis.py)\<close>

text \<open>
  \<open>Chebyshev._resize_coeffs(cdata_in, cdata_out, axis)\<close>, along the axis: the new
  contents of \<open>cdata_out\<close>.
\<close>

definition Chebyshev_resize_coeffs :: "('a::zero) list \<Rightarrow> 'a list \<Rightarrow> pyerror + 'a list" where
  "Chebyshev_resize_coeffs cdata_in cdata_out =
     (let size_in = length cdata_in; size_out = length cdata_out in
      if size_in < size_out then
        (case copyto_slice cdata_out 0 (Some (int size_in)) cdata_in of
           Inl e \<Rightarrow> Inl e
         | Inr out1 \<Rightarrow> Inr (fill_slice out1 (int size_in) None 0))
      else if size_in > size_out then
        copyto cdata_out (get_slice cdata_in 0 (Some (int size_out)))
      else copyto cdata_out cdata_in)"

text \<open>
  \<open>Fourier._resize_complex_coeffs(self, cdata_in, cdata_out, axis)\<close>: with
  \<open>kmax = (min(size_in, size_out) - 1) // 2\<close> it copies the slice \<open>0:kmax+1\<close>, zeroes
  the slice \<open>kmax+1:-kmax\<close> and copies the slice \<open>-kmax:\<close>.
\<close>

definition Fourier_resize_complex_coeffs :: "('a::zero) list \<Rightarrow> 'a list \<Rightarrow> pyerror + 'a list" where
  "Fourier_resize_complex_coeffs cdata_in cdata_out =
     (let size_in = length cdata_in; size_out = length cdata_out;
          kmax = (int (min size_in size_out) - 1) div 2
      in case copyto_slice cdata_out 0 (Some (kmax + 1)) (get_slice cdata_in 0 (Some (kmax + 1))) of
           Inl e \<Rightarrow> Inl e
         | Inr out1 \<Rightarrow>
             copyto_slice (fill_slice out1 (kmax + 1) (Some (- kmax)) 0) (- kmax) None
               (get_slice cdata_in (- kmax) None))"

section \<open>Forward and backward transforms (pde/basis.py)\<close>












subsection \<open>The scipy kernels\<close>

text \<open>
  The kernels are library code outside the repository; they are written here from the
  scipy documentation, for grids small enough to evaluate. \<open>fftpack.fft\<close> computes
  \<open>y[k] = sum_n x[n] * w^(k*n)\<close> with \<open>w = exp(-2 pi i / G)\<close>, \<open>fftpack.ifft\<close> computes
  \<open>x[n] = (1/G) * sum_k y[k] * w^(-k*n)\<close>.
\<close>

definition dft :: "complex \<Rightarrow> complex list \<Rightarrow> complex list" where
  "dft w x = map (\<lambda>k. \<Sum>n\<leftarrow>[0..<length x]. x ! n * w ^ (k * n)) [0..<length x]"







section \<open>Library selection\<close>

lemma lower_scipy: "lower ''scipy'' = ''scipy''"
  by (simp add: lower_def lower_char_def)

lemma lower_FFTW: "lower ''FFTW'' = ''fftw''"
  by code_simp

lemma Chebyshev_init_honours_default:
  "Chebyshev_init ''FFTW'' n iv d nm =
     Inr ((new_basis Chebyshev n iv d nm)
            \<lparr>forward := Some (Chebyshev, ''_forward_fftw''),
             backward := Some (Chebyshev, ''_backward_fftw''),
             library_attr := Some ''fftw''\<rparr>)"
  by (simp add: Chebyshev_init_def library_setter_def getattr_def transform_methods_def
      lower_FFTW new_basis_def)

lemma Fourier_init_honours_default:
  "Fourier_init ''fftw'' n iv d nm =
     Inr ((new_basis Fourier n iv d nm)
            \<lparr>forward := Some (Fourier, ''_forward_fftw''),
             backward := Some (Fourier, ''_backward_fftw''),
             library_attr := Some ''fftw''\<rparr>)"
  by (simp add: Fourier_init_def library_setter_def getattr_def transform_methods_def
      lower_def lower_char_def new_basis_def)

text \<open>
  C10. Whatever the configured \<open>DEFAULT_LIBRARY\<close> is, constructing a SinCos basis succeeds
  and leaves \<open>library\<close> equal to \<open>'scipy'\<close>, with \<open>forward\<close> and \<open>backward\<close> bound to the
  class's \<open>_forward_scipy\<close> and \<open>_backward_scipy\<close>.
\<close>

theorem SinCos_init_binds_scipy:
  "\<exists>b. SinCos_init DEFAULT_LIBRARY n iv d nm = Inr b
       \<and> library_attr b = Some ''scipy''
       \<and> forward b = Some (SinCos, ''_forward_scipy'')
       \<and> backward b = Some (SinCos, ''_backward_scipy'')"
  by (simp add: SinCos_init_def library_setter_def getattr_def transform_methods_def
      lower_scipy new_basis_def)

section \<open>Assigning data to a field\<close>

lemma Field_setitem_keeps_buffer:
  "Field_setitem vd self key data = Inr (self', data') \<Longrightarrow> buffer self' = buffer self"
  by (auto simp: Field_setitem_def layout_setter_def Let_def split: sum.splits)

lemma Field_setitem_overwrites_data:
  "length data = length (vd l (buffer self)) \<Longrightarrow>
   Field_setitem vd self (Obj l) data = Inr (self\<lparr>layout_attr := l\<rparr>, vd l (buffer self))"
  by (simp add: Field_setitem_def resolve_key_def layout_setter_def field_data_def copyto_def)

text \<open>
  C9. The code at a concrete input: a field whose four-element buffer holds zeros is
  assigned the array \<open>[1, 2, 3, 4]\<close> under a layout object. The layout is set, the buffer
  still holds zeros, and the provided array has been overwritten with the zeros of the
  field; under a layout name the call raises AttributeError.
\<close>

theorem Field_setitem_copies_outwards:
  "Field_setitem (view_data (\<lambda>l. 4)) \<lparr>layout_attr = l0, buffer = [0, 0, 0, 0 :: int]\<rparr>
       (Obj l1) [1, 2, 3, 4]
     = Inr (\<lparr>layout_attr = l1, buffer = [0, 0, 0, 0]\<rparr>, [0, 0, 0, 0])
   \<and> Field_setitem (view_data (\<lambda>l. 4)) \<lparr>layout_attr = l0, buffer = [0, 0, 0, 0 :: int]\<rparr>
       (Name ''g'') [1, 2, 3, 4]
     = Inl AttributeError"
  by (simp add: Field_setitem_def resolve_key_def layout_setter_def field_data_def
      copyto_def view_data_def)

section \<open>Chebyshev differentiation by recursion\<close>

lemma resolve_cdata:
  "resolve (explicit_form_scope input output axis) ''cdata'' = Inl NameError"
  by (simp add: resolve_def explicit_form_scope_def module_names_def)

lemma explicit_form_never_returns:
  "explicit_form stretch n input output axis = Inl NameError"
  by (simp add: explicit_form_def resolve_cdata Let_def)

text \<open>
  Were \<open>cdata\<close> and \<open>cderiv\<close> bound to the two arrays, the recursion would give the
  coefficients of the constant 1 for the input \<open>T\<^sub>1\<close>, and \<open>4 T\<^sub>1\<close> for \<open>T\<^sub>2\<close>.
\<close>

lemma recursion_T1:
  "recursion 1 8 [0, 1, 0, 0, 0, 0, 0, 0] [0, 0, 0, 0, 0, 0, 0, 0] = [1, 0, 0, 0, 0, 0, 0, 0]"
  by (simp add: recursion_def Let_def eval_nat_numeral)

lemma recursion_T2:
  "recursion 1 8 [0, 0, 1, 0, 0, 0, 0, 0] [9, 9, 9, 9, 9, 9, 9, 9] = [0, 4, 0, 0, 0, 0, 0, 0]"
  by (simp add: recursion_def Let_def eval_nat_numeral)

text \<open>
  C7. The code at the input of the claim: \<open>coeff_size = 8\<close> on the interval \<open>[-1, 1]\<close>
  (half-length 1), input coefficients \<open>[0,1,0,0,0,0,0,0]\<close>, last axis. The call raises
  NameError instead of returning \<open>[1,0,0,0,0,0,0,0]\<close>.
\<close>

theorem explicit_form_raises_NameError:
  "explicit_form 1 8 [0, 1, 0, 0, 0, 0, 0, 0] [0, 0, 0, 0, 0, 0, 0, 0] (- 1) = Inl NameError"
  by (rule explicit_form_never_returns)

section \<open>Interpolation vector of a compound basis\<close>

lemma interp_scan_inside:
  "\<exists>b \<in> set bs. fst (sub_interval b) \<le> x \<and> x \<le> snd (sub_interval b) \<Longrightarrow>
   interp_scan self i bs x = Inl TypeError"
  by (induction bs arbitrary: i) (auto simp: getitem_def coeff_start_attr_def)

lemma interp_scan_outside:
  "\<forall>b \<in> set bs. \<not> (fst (sub_interval b) \<le> x \<and> x \<le> snd (sub_interval b)) \<Longrightarrow>
   interp_scan self i bs x = Inl ValueError"
  by (induction bs arbitrary: i) (auto simp: getitem_def coeff_start_attr_def)

lemma interp_vector_never_returns: "interp_vector self x \<noteq> Inr v"
proof (cases "\<exists>b \<in> set self. fst (sub_interval b) \<le> x \<and> x \<le> snd (sub_interval b)")
  case True
  then show ?thesis by (simp add: interp_vector_def interp_scan_inside)
next
  case False
  then show ?thesis by (simp add: interp_vector_def interp_scan_outside)
qed

text \<open>
  C8. The code at a position inside a subbasis: two subbases of size 4 on \<open>[0, 1]\<close> and
  \<open>[1, 2]\<close>, position \<open>1/2\<close>. The call raises TypeError instead of returning the vector.
\<close>

theorem interp_vector_raises_TypeError:
  "interp_vector
     [\<lparr>sub_interval = (0, 1), coeff_size = 4, sub_interp_vector = f\<rparr>,
      \<lparr>sub_interval = (1, 2), coeff_size = 4, sub_interp_vector = g\<rparr>] (1 / 2)
   = (Inl TypeError :: pyerror + real list)"
  by (simp add: interp_vector_def getitem_def coeff_start_attr_def)

section \<open>Resizing coefficients\<close>

lemma copyto_slice_fits:
  "slice_bounds i0 i1 (length dst) = (lo, hi) \<Longrightarrow> lo \<le> hi \<Longrightarrow> hi \<le> length dst \<Longrightarrow>
   length src = hi - lo \<Longrightarrow>
   copyto_slice dst i0 i1 src = Inr (take lo dst @ src @ drop hi dst)"
  by (simp add: copyto_slice_def copyto_def)

lemma fill_slice_fits:
  "slice_bounds i0 i1 (length dst) = (lo, hi) \<Longrightarrow> lo \<le> hi \<Longrightarrow>
   fill_slice dst i0 i1 c = take lo dst @ replicate (hi - lo) c @ drop hi dst"
  by (simp add: fill_slice_def)

lemma get_slice_bounds:
  "slice_bounds i0 i1 (length xs) = (lo, hi) \<Longrightarrow> get_slice xs i0 i1 = take (hi - lo) (drop lo xs)"
  by (simp add: get_slice_def)

lemma drop_to_last: "length a + length b = j \<Longrightarrow> drop j (a @ b @ c) = c"
  by auto

lemma replicate_two: "replicate 2 x = [x, x]"
  by (simp add: numeral_2_eq_2)

lemma kmax_nat: "1 \<le> a \<Longrightarrow> (int a - 1) div 2 = int ((a - 1) div 2)"
  by (simp add: zdiv_int of_nat_diff)

lemma Chebyshev_resize_coeffs_result: "Chebyshev_resize_coeffs xin xout = Inr (take (length xout) xin @ replicate (length xout - length xin) 0)"
proof -
  consider "length xin < length xout" | "length xin > length xout" | "length xin = length xout" by linarith
  then show ?thesis
  proof cases
    case 1
    have sa: "slice_bounds 0 (Some (int (length xin))) (length xout) = (0, length xin)"
      using 1 by (simp add: slice_bounds_def clip_index_def)
    have a: "copyto_slice xout 0 (Some (int (length xin))) xin = Inr (xin @ drop (length xin) xout)"
      using 1 copyto_slice_fits[OF sa, of xin] by simp
    have sb: "slice_bounds (int (length xin)) None (length (xin @ drop (length xin) xout)) = (length xin, length xout)"
      using 1 by (simp add: slice_bounds_def clip_index_def)
    have b: "fill_slice (xin @ drop (length xin) xout) (int (length xin)) None 0 = xin @ replicate (length xout - length xin) 0"
      using 1 fill_slice_fits[OF sb, of 0] by simp
    show ?thesis using 1 by (simp add: Chebyshev_resize_coeffs_def a b)
  next
    case 2
    have sa: "slice_bounds 0 (Some (int (length xout))) (length xin) = (0, length xout)"
      using 2 by (simp add: slice_bounds_def clip_index_def)
    have "get_slice xin 0 (Some (int (length xout))) = take (length xout) xin"
      using get_slice_bounds[OF sa] by simp
    then show ?thesis using 2 by (simp add: Chebyshev_resize_coeffs_def copyto_def)
  next
    case 3
    then show ?thesis by (simp add: Chebyshev_resize_coeffs_def copyto_def)
  qed
qed

lemma Fourier_resize_complex_coeffs_result:
  assumes n: "3 \<le> length xin" and m: "3 \<le> length xout"
    and k: "k = (min (length xin) (length xout) - 1) div 2"
  shows "Fourier_resize_complex_coeffs xin xout =
     Inr (take (k+1) xin @ replicate (length xout - 2*k - 1) 0 @ drop (length xin - k) xin)"
proof -
  have kpos: "0 < k" using n m k by (auto simp: min_def)
  have kn: "2 * k + 1 \<le> length xin" and km: "2 * k + 1 \<le> length xout" using n m k by (auto simp: min_def)
  have kmax: "(int (min (length xin) (length xout)) - 1) div 2 = int k"
    using n m k kmax_nat[of "min (length xin) (length xout)"] by simp
  have sg1: "slice_bounds 0 (Some (int k + 1)) (length xin) = (0, k+1)"
    using kn by (simp add: slice_bounds_def clip_index_def)
  have g1: "get_slice xin 0 (Some (int k + 1)) = take (k+1) xin"
    using get_slice_bounds[OF sg1] by simp
  have ss1: "slice_bounds 0 (Some (int k + 1)) (length xout) = (0, k+1)"
    using km by (simp add: slice_bounds_def clip_index_def)
  have s1: "copyto_slice xout 0 (Some (int k + 1)) (take (k+1) xin) = Inr (take (k+1) xin @ drop (k+1) xout)"
    using kn km copyto_slice_fits[OF ss1, of "take (k+1) xin"] by simp
  let ?o1 = "take (k+1) xin @ drop (k+1) xout"
  have l1: "length ?o1 = length xout" using kn km by simp
  have s2: "fill_slice ?o1 (int k + 1) (Some (- int k)) 0 = take (k+1) xin @ replicate (length xout - 2*k - 1) 0 @ drop (length xout - k) xout"
  proof -
    have sb: "slice_bounds (int k + 1) (Some (- int k)) (length ?o1) = (k+1, length xout - k)"
      unfolding l1 using kpos km by (auto simp add: slice_bounds_def clip_index_def)
    have "fill_slice ?o1 (int k + 1) (Some (- int k)) 0 = take (k+1) ?o1 @ replicate (length xout - k - (k+1)) 0 @ drop (length xout - k) ?o1"
      using km fill_slice_fits[OF sb, of 0] by simp
    moreover have "take (k+1) ?o1 = take (k+1) xin" using kn by simp
    moreover have "drop (length xout - k) ?o1 = drop (length xout - k) xout"
    proof -
      have "Suc (length xout - Suc k) = length xout - k" using km by arith
      then show ?thesis using kn km by simp
    qed
    moreover have "length xout - k - (k+1) = length xout - 2*k - 1" by simp
    ultimately show ?thesis by simp
  qed
  let ?o2 = "take (k+1) xin @ replicate (length xout - 2*k - 1) 0 @ drop (length xout - k) xout"
  have l2: "length ?o2 = length xout" using kn km by simp
  have sg3: "slice_bounds (- int k) None (length xin) = (length xin - k, length xin)"
    using kpos kn by (auto simp add: slice_bounds_def clip_index_def)
  have g3: "get_slice xin (- int k) None = drop (length xin - k) xin"
    using kn get_slice_bounds[OF sg3] by simp
  have s3: "copyto_slice ?o2 (- int k) None (drop (length xin - k) xin) = Inr (take (k+1) xin @ replicate (length xout - 2*k - 1) 0 @ drop (length xin - k) xin)"
  proof -
    have sb: "slice_bounds (- int k) None (length ?o2) = (length xout - k, length xout)"
      unfolding l2 using kpos km by (auto simp add: slice_bounds_def clip_index_def)
    have "copyto_slice ?o2 (- int k) None (drop (length xin - k) xin) = Inr (take (length xout - k) ?o2 @ drop (length xin - k) xin @ drop (length xout) ?o2)"
      using kn km l2 copyto_slice_fits[OF sb, of "drop (length xin - k) xin"] by simp
    moreover have "take (length xout - k) ?o2 = take (k+1) xin @ replicate (length xout - 2*k - 1) 0"
      using kn km by simp
    moreover have "drop (length xout) ?o2 = []" using l2 by simp
    ultimately show ?thesis by simp
  qed
  show ?thesis
    unfolding Fourier_resize_complex_coeffs_def Let_def kmax
    apply (subst g1)
    apply (subst s1)
    apply (simp only: sum.case)
    apply (subst s2)
    apply (subst g3)
    apply (rule s3)
    done
qed

text \<open>
  The complex Fourier resize at sizes 5 and 3: truncation keeps the entries 0, 1 and the
  last one, and padding back puts the last one at the end, so entry 2 is zeroed and entry
  4 is kept.
\<close>

theorem Fourier_resize_truncation_counterexample:
  "Fourier_resize_complex_coeffs [1, 2, 3, 4, 5 :: int] [0, 0, 0] = Inr [1, 2, 5]
   \<and> Fourier_resize_complex_coeffs [1, 2, 5 :: int] [0, 0, 0, 0, 0] = Inr [1, 2, 0, 0, 5]
   \<and> [1, 2, 0, 0, 5 :: int] \<noteq> take 3 [1, 2, 3, 4, 5] @ replicate (5 - 3) 0"
  by (simp add: Fourier_resize_complex_coeffs_def copyto_slice_def fill_slice_def
      get_slice_def slice_bounds_def clip_index_def copyto_def eval_nat_numeral)

text \<open>
  C6, amended. Let \<open>xs\<close> have length \<open>N\<close>, and let the output arrays have lengths \<open>S\<close> and
  \<open>N\<close>, with any contents. The Chebyshev resize from \<open>N\<close> to \<open>S\<close> and back is the identity
  when \<open>S \<ge> N\<close>, and keeps modes \<open>0..S-1\<close> and zeroes modes \<open>S..N-1\<close> when \<open>S < N\<close>. The
  complex Fourier resize from an odd \<open>N \<ge> 3\<close> to \<open>S \<ge> N\<close> and back is the identity; from
  \<open>N\<close> to \<open>3 \<le> S < N\<close> and back, with \<open>k = (S-1) div 2\<close>, it keeps the entries \<open>0..k\<close> and
  the last \<open>k\<close> entries and zeroes the entries between.
\<close>

theorem resize_round_trip:
  fixes xs :: "('a::zero) list"
  assumes "length xs = N" and "length out_S = S" and "length out_N = N"
  shows "(N \<le> S \<longrightarrow>
            (\<exists>ys. Chebyshev_resize_coeffs xs out_S = Inr ys
                 \<and> Chebyshev_resize_coeffs ys out_N = Inr xs))
       \<and> (S < N \<longrightarrow>
            (\<exists>ys. Chebyshev_resize_coeffs xs out_S = Inr ys
                 \<and> Chebyshev_resize_coeffs ys out_N = Inr (take S xs @ replicate (N - S) 0)))
       \<and> (3 \<le> N \<and> odd N \<and> N \<le> S \<longrightarrow>
            (\<exists>ys. Fourier_resize_complex_coeffs xs out_S = Inr ys
                 \<and> Fourier_resize_complex_coeffs ys out_N = Inr xs))
       \<and> (3 \<le> S \<and> S < N \<longrightarrow>
            (\<exists>ys. Fourier_resize_complex_coeffs xs out_S = Inr ys
                 \<and> Fourier_resize_complex_coeffs ys out_N =
                     Inr (take ((S - 1) div 2 + 1) xs
                          @ replicate (N - 2 * ((S - 1) div 2) - 1) 0
                          @ drop (N - (S - 1) div 2) xs)))"
proof (intro conjI impI)
  assume "N \<le> S"
  then show "\<exists>ys. Chebyshev_resize_coeffs xs out_S = Inr ys
                 \<and> Chebyshev_resize_coeffs ys out_N = Inr xs"
    using assms by (simp add: Chebyshev_resize_coeffs_result)
next
  assume "S < N"
  then show "\<exists>ys. Chebyshev_resize_coeffs xs out_S = Inr ys
                 \<and> Chebyshev_resize_coeffs ys out_N = Inr (take S xs @ replicate (N - S) 0)"
    using assms by (simp add: Chebyshev_resize_coeffs_result min_def)
next
  assume h: "3 \<le> N \<and> odd N \<and> N \<le> S"
  define k where "k = (N - 1) div 2"
  have N: "N = 2 * k + 1" using h k_def by (auto elim: oddE)
  have "min N S = N" using h by simp
  then have k1: "k = (min (length xs) (length out_S) - 1) div 2"
    using assms k_def by simp
  define ys where "ys = take (k + 1) xs @ replicate (S - 2 * k - 1) 0 @ drop (N - k) xs"
  have n3: "3 \<le> length xs" and s3: "3 \<le> length out_S" and m3: "3 \<le> length out_N"
    using h assms by simp_all
  have up: "Fourier_resize_complex_coeffs xs out_S = Inr ys"
    using Fourier_resize_complex_coeffs_result[OF n3 s3 k1] by (simp only: assms ys_def)
  have lt: "length (take (k + 1) xs) = k + 1" using assms N by simp
  have ld: "length (drop (N - k) xs) = k" using assms N by simp
  have ar: "(k + 1) + (S - 2 * k - 1) = S - k" using h N by arith
  have ly: "length ys = S" unfolding ys_def using h N lt ld by simp
  have y3: "3 \<le> length ys" unfolding ly using h by simp
  have "min S N = N" using h by simp
  then have k2: "k = (min (length ys) (length out_N) - 1) div 2"
    unfolding ly using assms k_def by simp
  have r: "Fourier_resize_complex_coeffs ys out_N =
          Inr (take (k + 1) ys @ replicate (length out_N - 2 * k - 1) 0
               @ drop (length ys - k) ys)"
    by (rule Fourier_resize_complex_coeffs_result[OF y3 m3 k2])
  have t: "take (k + 1) ys = take (k + 1) xs" unfolding ys_def using lt by simp
  have "drop (S - k) ys = drop (N - k) xs"
    unfolding ys_def by (rule drop_to_last) (simp only: lt length_replicate ar)
  then have d: "drop (length ys - k) ys = drop (N - k) xs"
    by (simp only: ly)
  have z: "length out_N - 2 * k - 1 = 0" using assms N by simp
  have e: "take (k + 1) xs @ drop (N - k) xs = xs"
  proof -
    have "N - k = k + 1" using N by simp
    then show ?thesis by simp
  qed
  have "Fourier_resize_complex_coeffs ys out_N = Inr xs"
    by (simp only: r t d z replicate_0 append_Nil e)
  with up show "\<exists>ys. Fourier_resize_complex_coeffs xs out_S = Inr ys
                 \<and> Fourier_resize_complex_coeffs ys out_N = Inr xs" by blast
next
  assume h: "3 \<le> S \<and> S < N"
  define k where "k = (S - 1) div 2"
  have kS: "2 * k + 1 \<le> S" using h k_def by arith
  have "min N S = S" using h by simp
  then have k1: "k = (min (length xs) (length out_S) - 1) div 2"
    using assms k_def by simp
  define ys where "ys = take (k + 1) xs @ replicate (S - 2 * k - 1) 0 @ drop (N - k) xs"
  have n3: "3 \<le> length xs" and s3: "3 \<le> length out_S" and m3: "3 \<le> length out_N"
    using h assms by simp_all
  have down: "Fourier_resize_complex_coeffs xs out_S = Inr ys"
    using Fourier_resize_complex_coeffs_result[OF n3 s3 k1] by (simp only: assms ys_def)
  have lt: "length (take (k + 1) xs) = k + 1" using h assms kS by simp
  have ld: "length (drop (N - k) xs) = k" using h assms kS by simp
  have ar: "(k + 1) + (S - 2 * k - 1) = S - k" using kS by arith
  have ly: "length ys = S" unfolding ys_def using kS lt ld by simp
  have y3: "3 \<le> length ys" unfolding ly using h by simp
  have "min S N = S" using h by simp
  then have k2: "k = (min (length ys) (length out_N) - 1) div 2"
    unfolding ly using assms k_def by simp
  have r: "Fourier_resize_complex_coeffs ys out_N =
          Inr (take (k + 1) ys @ replicate (length out_N - 2 * k - 1) 0
               @ drop (length ys - k) ys)"
    by (rule Fourier_resize_complex_coeffs_result[OF y3 m3 k2])
  have t: "take (k + 1) ys = take (k + 1) xs" unfolding ys_def using lt by simp
  have "drop (S - k) ys = drop (N - k) xs"
    unfolding ys_def by (rule drop_to_last) (simp only: lt length_replicate ar)
  then have d: "drop (length ys - k) ys = drop (N - k) xs"
    by (simp only: ly)
  have "Fourier_resize_complex_coeffs ys out_N =
          Inr (take (k + 1) xs @ replicate (N - 2 * k - 1) 0 @ drop (N - k) xs)"
    by (simp only: r t d assms)
  with down show "\<exists>ys. Fourier_resize_complex_coeffs xs out_S = Inr ys
                 \<and> Fourier_resize_complex_coeffs ys out_N =
                     Inr (take ((S - 1) div 2 + 1) xs
                          @ replicate (N - 2 * ((S - 1) div 2) - 1) 0
                          @ drop (N - (S - 1) div 2) xs)"
    unfolding k_def by blast
qed

theorem resize_round_trip_witness:
  "(\<exists>ys. Chebyshev_resize_coeffs [1, 2, 3 :: int] [9, 9, 9, 9, 9] = Inr ys
        \<and> Chebyshev_resize_coeffs ys [9, 9, 9] = Inr [1, 2, 3])
   \<and> (\<exists>ys. Fourier_resize_complex_coeffs [1, 2, 3 :: int] [9, 9, 9, 9, 9] = Inr ys
        \<and> Fourier_resize_complex_coeffs ys [9, 9, 9] = Inr [1, 2, 3])
   \<and> (\<exists>ys. Chebyshev_resize_coeffs [1, 2, 3, 4, 5 :: int] [9, 9, 9] = Inr ys
        \<and> Chebyshev_resize_coeffs ys [9, 9, 9, 9, 9] = Inr [1, 2, 3, 0, 0])
   \<and> (\<exists>ys. Fourier_resize_complex_coeffs [1, 2, 3, 4, 5 :: int] [9, 9, 9] = Inr ys
        \<and> Fourier_resize_complex_coeffs ys [9, 9, 9, 9, 9] = Inr [1, 2, 0, 0, 5])"
  using resize_round_trip [of "[1, 2, 3 :: int]" 3 "[9, 9, 9, 9, 9]" 5 "[9, 9, 9]"]
    resize_round_trip [of "[1, 2, 3, 4, 5 :: int]" 5 "[9, 9, 9]" 3 "[9, 9, 9, 9, 9]"]
  by (simp add: replicate_two)

section \<open>Block distribution of a layout\<close>

lemma ceil_div_ceiling: "0 < b \<Longrightarrow> ceil_div a b = \<lceil>real_of_int a / real_of_int b\<rceil>"
  by (simp add: ceil_div_def ceiling_divide_eq_div)

lemma ceil_div_bounds:
  assumes "0 < g" "0 < m"
  shows "0 < ceil_div g m" and "g \<le> ceil_div g m * m" and "(ceil_div g m - 1) * m < g"
proof -
  have c: "ceil_div g m = \<lceil>real_of_int g / real_of_int m\<rceil>" using assms by (simp add: ceil_div_ceiling)
  have "0 < real_of_int g / real_of_int m" using assms by simp
  then show "0 < ceil_div g m" unfolding c by simp
  have "real_of_int g / real_of_int m \<le> of_int (ceil_div g m)" unfolding c by linarith
  then have "real_of_int g \<le> of_int (ceil_div g m) * real_of_int m"
    using assms by (simp add: pos_divide_le_eq)
  then show "g \<le> ceil_div g m * m" by (metis of_int_le_iff of_int_mult)
  have "of_int (ceil_div g m) - 1 < real_of_int g / real_of_int m" unfolding c by linarith
  then have "(of_int (ceil_div g m) - 1) * real_of_int m < real_of_int g"
    using assms by (simp add: pos_less_divide_eq)
  then show "(ceil_div g m - 1) * m < g" by (metis of_int_less_iff of_int_mult of_int_diff of_int_1)
qed

lemma sum_split_int:
  fixes f :: "int \<Rightarrow> int"
  assumes "a \<le> c" and "c \<le> b"
  shows "sum f {a..<b} = sum f {a..<c} + sum f {c..<b}"
proof -
  have "{a..<b} = {a..<c} \<union> {c..<b}" using assms by auto
  moreover have "{a..<c} \<inter> {c..<b} = {}" by auto
  ultimately show ?thesis by (simp add: sum.union_disjoint)
qed

lemma sum_local_size:
  assumes "0 < g" "0 < m"
  shows "(\<Sum>c\<leftarrow>[0..m - 1]. local_size g (ceil_div g m) c) = g"
proof -
  define b where "b = ceil_div g m"
  define cut where "cut = g div b"
  have b: "0 < b" "g \<le> b * m" using ceil_div_bounds[OF assms] by (simp_all add: b_def)
  have cut0: "0 \<le> cut" using assms b by (simp add: cut_def pos_imp_zdiv_nonneg_iff)
  have cutm: "cut \<le> m"
  proof -
    have "g div b \<le> (b * m) div b" using b by (intro zdiv_mono1) simp_all
    then show ?thesis using b by (simp add: cut_def)
  qed
  have cb: "cut * b \<le> g"
  proof -
    have "g div b * b + g mod b = g" by (rule div_mult_mod_eq)
    moreover have "0 \<le> g mod b" using b by simp
    ultimately show ?thesis unfolding cut_def by linarith
  qed
  let ?f = "\<lambda>c. local_size g b c"
  have f_lt: "\<And>c. c < cut \<Longrightarrow> ?f c = b" by (simp add: local_size_def cut_def)
  have f_eq: "?f cut = g - cut * b" by (simp add: local_size_def cut_def)
  have f_gt: "\<And>c. cut < c \<Longrightarrow> ?f c = 0" by (simp add: local_size_def cut_def)
  have conv: "(\<Sum>c\<leftarrow>[0..m - 1]. ?f c) = sum ?f {0..<m}"
  proof -
    have "{0..m - 1} = {0..<m}" by auto
    then show ?thesis by (simp add: sum_set_upto_conv_sum_list_int[symmetric])
  qed
  have low: "sum ?f {0..<cut} = cut * b"
  proof -
    have "sum ?f {0..<cut} = sum (\<lambda>c. b) {0..<cut}" by (intro sum.cong) (simp_all add: f_lt)
    then show ?thesis using cut0 by simp
  qed
  show ?thesis
  proof (cases "cut = m")
    case True
    have "g div b * b \<le> g" using cb by (simp add: cut_def)
    then have "m * b = g" using b cb True by (simp add: mult.commute)
    then show ?thesis using conv low True by (simp add: b_def)
  next
    case False
    then have lt: "cut < m" using cutm by simp
    have "sum ?f {0..<m} = sum ?f {0..<cut} + sum ?f {cut..<m}"
      using cut0 cutm by (rule sum_split_int)
    also have "sum ?f {cut..<m} = sum ?f {cut..<cut + 1} + sum ?f {cut + 1..<m}"
      using lt by (intro sum_split_int) simp_all
    also have "sum ?f {cut + 1..<m} = 0" by (intro sum.neutral) (simp add: f_gt)
    also have "{cut..<cut + 1} = {cut}" by auto
    finally have "sum ?f {0..<m} = cut * b + (g - cut * b)" using low f_eq by simp
    then show ?thesis using conv by (simp add: b_def)
  qed
qed

lemma local_shape_shape_of:
  "local_shape dmn l scales = shape_of (global_shape dmn l scales) (ext_mesh l) (ext_coords l)"
  by (simp add: local_shape_def shape_of_def blocks_def)

lemma shape_of_Cons:
  "shape_of (g # gsh) (m # em) (c # ec) = local_size g (ceil_div g m) c # shape_of gsh em ec"
  by (simp add: shape_of_def)

lemma shape_of_Nil: "shape_of [] em ec = []"
  by (simp add: shape_of_def)

lemma local_size_whole: "0 < g \<Longrightarrow> local_size g (ceil_div g 1) 0 = g"
  by (simp add: local_size_def ceil_div_def)

lemma sum_product_Cons:
  fixes F :: "'a list \<Rightarrow> int"
  shows "(\<Sum>cs\<leftarrow>concat (map (\<lambda>c. map (Cons c) P) xs). F cs) = (\<Sum>c\<leftarrow>xs. \<Sum>cs'\<leftarrow>P. F (c # cs'))"
  by (induction xs) (simp_all add: comp_def)

lemma sum_shapes:
  assumes "length gsh = length loc" and "length (filter Not loc) = length mesh"
    and "\<forall>g \<in> set gsh. 0 < g" and "\<forall>m \<in> set mesh. 0 < m"
  shows "(\<Sum>cs\<leftarrow>product_lists (map (\<lambda>m. [0..m - 1]) mesh).
            prod_list (shape_of gsh (scatter (replicate (length loc) 1) (map Not loc) mesh)
                                    (scatter (replicate (length loc) 0) (map Not loc) cs)))
         = prod_list gsh"
  using assms
proof (induction loc arbitrary: gsh mesh)
  case Nil
  then show ?case by (simp add: shape_of_Nil)
next
  case (Cons a loc)
  obtain g gsh' where gsh: "gsh = g # gsh'" using Cons.prems(1) by (cases gsh) auto
  have g: "0 < g" and gs': "\<forall>g \<in> set gsh'. 0 < g" and len: "length gsh' = length loc"
    using Cons.prems gsh by auto
  show ?case
  proof (cases a)
    case True
    have IH: "(\<Sum>cs\<leftarrow>product_lists (map (\<lambda>m. [0..m - 1]) mesh).
            prod_list (shape_of gsh' (scatter (replicate (length loc) 1) (map Not loc) mesh)
                                    (scatter (replicate (length loc) 0) (map Not loc) cs)))
         = prod_list gsh'"
      using Cons.IH[OF len _ gs' Cons.prems(4)] Cons.prems(2) True by simp
    show ?thesis using True g IH
      by (simp add: gsh shape_of_Cons local_size_whole sum_list_const_mult)
  next
    case False
    obtain m mesh' where mesh: "mesh = m # mesh'" using Cons.prems(2) False by (cases mesh) auto
    have m: "0 < m" and ms': "\<forall>m \<in> set mesh'. 0 < m" and cnt: "length (filter Not loc) = length mesh'"
      using Cons.prems mesh False by auto
    have IH: "(\<Sum>cs\<leftarrow>product_lists (map (\<lambda>m. [0..m - 1]) mesh').
            prod_list (shape_of gsh' (scatter (replicate (length loc) 1) (map Not loc) mesh')
                                    (scatter (replicate (length loc) 0) (map Not loc) cs)))
         = prod_list gsh'"
      using Cons.IH[OF len cnt gs' ms'] .
    have "(\<Sum>c\<leftarrow>[0..m - 1]. \<Sum>cs'\<leftarrow>product_lists (map (\<lambda>m. [0..m - 1]) mesh').
             local_size g (ceil_div g m) c *
             prod_list (shape_of gsh' (scatter (replicate (length loc) 1) (map Not loc) mesh')
                                     (scatter (replicate (length loc) 0) (map Not loc) cs')))
          = (\<Sum>c\<leftarrow>[0..m - 1]. local_size g (ceil_div g m) c * prod_list gsh')"
      by (simp only: sum_list_const_mult IH)
    also have "\<dots> = g * prod_list gsh'"
      by (simp only: sum_list_mult_const sum_local_size[OF g m])
    finally show ?thesis using False
      by (simp add: gsh mesh shape_of_Cons sum_product_Cons)
  qed
qed

lemma Layout_init_result:
  assumes "length loc = d" and "length (filter Not loc) = length mesh"
    and "length cs = length mesh"
  shows "Layout_init d mesh cs loc gs dt =
     Inr \<lparr>local = loc, grid_space = gs, dtype = dt, index = None,
          ext_mesh = scatter (replicate d 1) (map Not loc) mesh,
          ext_coords = scatter (replicate d 0) (map Not loc) cs\<rparr>"
proof -
  have "length (filter (\<lambda>b. b) (map Not loc)) = length mesh"
    using assms(2) by (simp add: filter_map comp_def)
  then show ?thesis using assms by (simp add: Layout_init_def masked_set_def)
qed

lemma Layout_init_grid_space:
  "Layout_init d mesh cs loc gs dt = Inr l \<Longrightarrow> grid_space l = gs \<and> local l = loc"
  by (auto simp: Layout_init_def split: sum.splits)

lemma global_shape_length:
  "length (grid_space l) = n \<Longrightarrow> length (global_coeff_shape dmn) = n \<Longrightarrow>
   length (global_grid_shape dmn scales) = n \<Longrightarrow> length (global_shape dmn l scales) = n"
  by (simp add: global_shape_def)

lemma global_shape_positive:
  assumes "\<forall>g \<in> set (global_coeff_shape dmn). 0 < g"
    and "\<forall>g \<in> set (global_grid_shape dmn scales). 0 < g"
  shows "\<forall>g \<in> set (global_shape dmn l scales). 0 < g"
proof
  fix g assume "g \<in> set (global_shape dmn l scales)"
  then obtain t where t: "t \<in> set (zip (grid_space l) (zip (global_coeff_shape dmn) (global_grid_shape dmn scales)))"
    and g: "g = (case t of (a, c, gr) \<Rightarrow> if a then gr else c)"
    by (auto simp: global_shape_def)
  obtain a c gr where tt: "t = (a, c, gr)" by (cases t) auto
  have "(c, gr) \<in> set (zip (global_coeff_shape dmn) (global_grid_shape dmn scales))"
    using t tt by (meson set_zip_rightD)
  then have "c \<in> set (global_coeff_shape dmn)" and "gr \<in> set (global_grid_shape dmn scales)"
    by (meson set_zip_leftD set_zip_rightD)+
  then show "0 < g" using assms g tt by auto
qed

text \<open>
  C5. Take a domain whose global coefficient and grid shapes have positive entries, a
  mesh with positive entries, and locality flags with as many distributed axes as the
  mesh has dimensions. The layout can be built on every rank of the mesh, and the local
  element counts of all ranks (the products of their local shapes) add up to the product
  of the global shape.
\<close>

theorem shape_conservation:
  assumes "length loc = dim dmn" and "length gs = dim dmn"
    and "length (global_coeff_shape dmn) = dim dmn"
    and "length (global_grid_shape dmn scales) = dim dmn"
    and "length (filter Not loc) = length mesh"
    and "\<forall>m \<in> set mesh. 0 < m"
    and "\<forall>g \<in> set (global_coeff_shape dmn). 0 < g"
    and "\<forall>g \<in> set (global_grid_shape dmn scales). 0 < g"
    and "Layout_init (dim dmn) mesh cs0 loc gs dt = Inr l0"
  shows "\<exists>ns. map (rank_elements dmn mesh loc gs dt scales) (all_coords mesh) = map Some ns
            \<and> sum_list ns = prod_list (global_shape dmn l0 scales)"
proof -
  define gsh where "gsh = global_shape dmn l0 scales"
  define em where "em = scatter (replicate (dim dmn) 1) (map Not loc) mesh"
  define F where "F = (\<lambda>cs. prod_list (shape_of gsh em (scatter (replicate (dim dmn) 0) (map Not loc) cs)))"
  have l0: "grid_space l0 = gs" using assms(9) by (simp add: Layout_init_grid_space)
  have len: "length gsh = length loc"
    unfolding gsh_def using assms l0 by (simp add: global_shape_length)
  have pos: "\<forall>g \<in> set gsh. 0 < g"
    unfolding gsh_def using assms(7,8) by (rule global_shape_positive)
  have each: "rank_elements dmn mesh loc gs dt scales cs = Some (F cs)"
    if "cs \<in> set (all_coords mesh)" for cs
  proof -
    have lc: "length cs = length mesh"
      using that in_set_product_lists_length[of cs] by (simp add: all_coords_def)
    have gl: "global_shape dmn \<lparr>local = loc, grid_space = gs, dtype = dt, index = None,
          ext_mesh = scatter (replicate (dim dmn) 1) (map Not loc) mesh,
          ext_coords = scatter (replicate (dim dmn) 0) (map Not loc) cs\<rparr> scales = gsh"
      unfolding gsh_def by (simp add: global_shape_def l0)
    show ?thesis
      unfolding rank_elements_def Layout_init_result[OF assms(1) assms(5) lc]
      by (simp add: local_shape_shape_of gl F_def em_def)
  qed
  then have "map (rank_elements dmn mesh loc gs dt scales) (all_coords mesh)
             = map Some (map F (all_coords mesh))"
    by simp
  moreover have "sum_list (map F (all_coords mesh)) = prod_list gsh"
    unfolding F_def em_def all_coords_def assms(1)[symmetric]
    by (rule sum_shapes[OF len assms(5) pos assms(6)])
  ultimately show ?thesis unfolding gsh_def by blast
qed

lemma all_coords_4: "all_coords [4] = [[0], [1], [2], [3]]"
  by code_simp

theorem shape_conservation_witness:
  "\<exists>ns. map (rank_elements example_domain [4] [False, True] [False, False] complex128 ())
             (all_coords [4])
           = map Some ns \<and> sum_list ns = 72"
proof -
  have l: "Layout_init (dim example_domain) [4] [0] [False, True] [False, False] complex128 =
     Inr \<lparr>local = [False, True], grid_space = [False, False], dtype = complex128, index = None,
          ext_mesh = [4, 1], ext_coords = [0, 0]\<rparr>"
    by (simp add: Layout_init_def masked_set_def dim_def example_domain_def numeral_2_eq_2)
  show ?thesis
    using shape_conservation[of "[False, True]" example_domain "[False, False]" "()" "[4]" "[0]" complex128, OF _ _ _ _ _ _ _ _ l]
    by (simp add: all_coords_4 dim_def example_domain_def global_shape_def)
qed

lemma example_layout_init: "Layout_init 2 [4] [r] [False, True] [False, False] complex128 = Inr (example_layout r)"
  by (simp add: Layout_init_def masked_set_def example_layout_def numeral_2_eq_2)

lemma example_shapes: "local_shape example_domain (example_layout 0) () = [3, 8]"
  "local_shape example_domain (example_layout 1) () = [3, 8]"
  "local_shape example_domain (example_layout 2) () = [3, 8]"
  "local_shape example_domain (example_layout 3) () = [0, 8]"
  "blocks example_domain (example_layout r) () = [3, 8]"
  by (simp_all add: local_shape_def blocks_def global_shape_def example_domain_def example_layout_def local_size_def ceil_div_def)

text \<open>
  C4. On an axis with positive global size \<open>g\<close> and positive extended mesh size \<open>m\<close>:
  the block size is \<open>\<lceil>g / m\<rceil>\<close>; with \<open>cut = \<lfloor>g / blocks\<rfloor>\<close>, the local size is the block size
  where the extended coordinate is below the cut, \<open>g - cut * blocks\<close> where it equals the
  cut, and 0 past the cut. For the global coefficient shape \<open>[9, 8]\<close> with the mesh
  \<open>[4]\<close> on axis 0, the local shape is \<open>[3, 8]\<close> on ranks 0, 1, 2 and \<open>[0, 8]\<close> on rank 3.
\<close>

theorem local_shape_blocks:
  assumes "d < length (global_shape dmn l scales)" and "d < length (ext_mesh l)"
    and "d < length (ext_coords l)"
    and "0 < global_shape dmn l scales ! d" and "0 < ext_mesh l ! d"
  shows "blocks dmn l scales ! d
           = \<lceil>real_of_int (global_shape dmn l scales ! d) / real_of_int (ext_mesh l ! d)\<rceil>
       \<and> local_shape dmn l scales ! d
           = (let g = global_shape dmn l scales ! d;
                  b = blocks dmn l scales ! d;
                  cut = \<lfloor>real_of_int g / real_of_int b\<rfloor>;
                  c = ext_coords l ! d
              in if c < cut then b else if c = cut then g - cut * b else 0)
       \<and> (\<forall>r \<in> {0, 1, 2}. \<exists>l'. Layout_init 2 [4] [r] [False, True] [False, False] complex128 = Inr l'
              \<and> local_shape example_domain l' () = [3, 8])
       \<and> (\<exists>l'. Layout_init 2 [4] [3] [False, True] [False, False] complex128 = Inr l'
              \<and> local_shape example_domain l' () = [0, 8])"
proof (intro conjI)
  show b: "blocks dmn l scales ! d
           = \<lceil>real_of_int (global_shape dmn l scales ! d) / real_of_int (ext_mesh l ! d)\<rceil>"
    using assms by (simp add: blocks_def ceil_div_ceiling)
  have bn: "blocks dmn l scales ! d = ceil_div (global_shape dmn l scales ! d) (ext_mesh l ! d)"
    using assms by (simp add: blocks_def)
  have ls: "local_shape dmn l scales ! d
     = local_size (global_shape dmn l scales ! d) (blocks dmn l scales ! d) (ext_coords l ! d)"
    using assms by (simp add: local_shape_def blocks_def)
  show "local_shape dmn l scales ! d
           = (let g = global_shape dmn l scales ! d;
                  b = blocks dmn l scales ! d;
                  cut = \<lfloor>real_of_int g / real_of_int b\<rfloor>;
                  c = ext_coords l ! d
              in if c < cut then b else if c = cut then g - cut * b else 0)"
    unfolding ls by (auto simp add: local_size_def Let_def floor_divide_of_int_eq)
  show "\<forall>r \<in> {0, 1, 2}. \<exists>l'. Layout_init 2 [4] [r] [False, True] [False, False] complex128 = Inr l'
              \<and> local_shape example_domain l' () = [3, 8]"
    by (simp add: example_layout_init example_shapes)
  show "\<exists>l'. Layout_init 2 [4] [3] [False, True] [False, False] complex128 = Inr l'
              \<and> local_shape example_domain l' () = [0, 8]"
    by (simp add: example_layout_init example_shapes)
qed

theorem local_shape_blocks_witness:
  "blocks example_domain (example_layout 3) () ! 0 = 3
   \<and> local_shape example_domain (example_layout 3) () ! 0 = 0
   \<and> local_shape example_domain (example_layout 2) () ! 0 = 3"
  using local_shape_blocks[of 0 example_domain "example_layout 3" "()"]
    local_shape_blocks[of 0 example_domain "example_layout 2" "()"]
  by (simp add: example_shapes global_shape_def example_domain_def example_layout_def)

section \<open>The layout chain built by the distributor\<close>

lemma chain_cases:
  fixes D R k :: nat
  assumes "R < D" and "k < R + D"
  obtains (tail) "k < D - R"
  | (transpose) q where "q < R" and "k = D - R + 2 * q"
  | (transform) q where "q < R" and "k = D - R + 2 * q + 1"
proof (cases "k < D - R")
  case True
  then show ?thesis by (rule tail)
next
  case False
  define t where "t = k - (D - R)"
  have k: "k = D - R + t" using False unfolding t_def by arith
  have t: "t < 2 * R" using assms k by arith
  show ?thesis
  proof (cases "even t")
    case True
    then obtain q where "t = 2 * q" by (auto elim: evenE)
    then show ?thesis using t k by (intro transpose[of q]) simp_all
  next
    case False
    then obtain q where "t = 2 * q + 1" by (auto elim: oddE)
    then show ?thesis using t k by (intro transform[of q]) simp_all
  qed
qed

lemma counts_tail:
  "k < D - R \<Longrightarrow> ngrid D R k = k \<and> npose D R k = 0 \<and> ngrid D R (Suc k) = Suc k \<and> npose D R (Suc k) = 0"
  by (simp add: ngrid_def npose_def)

lemma counts_transpose:
  assumes "R < D" and "k = D - R + 2 * q"
  shows "ngrid D R k = D - R + q \<and> npose D R k = q
       \<and> ngrid D R (Suc k) = D - R + q \<and> npose D R (Suc k) = Suc q"
proof -
  define m where "m = D - R"
  have k: "k = m + 2 * q" using assms by (simp add: m_def)
  show ?thesis unfolding ngrid_def npose_def m_def[symmetric] k by auto
qed

lemma counts_transform:
  assumes "R < D" and "k = D - R + 2 * q + 1"
  shows "ngrid D R k = D - R + q \<and> npose D R k = Suc q
       \<and> ngrid D R (Suc k) = D - R + Suc q \<and> npose D R (Suc k) = Suc q"
proof -
  define m where "m = D - R"
  have k: "k = m + 2 * q + 1" using assms by (simp add: m_def)
  show ?thesis unfolding ngrid_def npose_def m_def[symmetric] k by auto
qed

lemma scan_axes_threshold:
  "0 < t \<Longrightarrow> t \<le> n \<Longrightarrow> n \<le> D \<Longrightarrow> scan_axes (map (\<lambda>d. t \<le> d) [0..<D]) n = Some (t - 1)"
proof (induction n)
  case 0
  then show ?case by simp
next
  case (Suc n)
  then show ?case by (cases "t \<le> n") (auto simp: le_Suc_eq)
qed

lemma upd_map_upt:
  "(map f [0..<D])[d := v] = map (\<lambda>i. if i = d then v else f i) [0..<D]"
  by (auto simp: list_eq_iff_nth_eq nth_list_update)

lemma count_distributed:
  assumes "R < D" and "p \<le> R"
  shows "length (filter Not (map (\<lambda>d. d = R - p \<or> R < d) [0..<D])) = R"
proof -
  have "length (filter Not (map (\<lambda>d. d = R - p \<or> R < d) [0..<D]))
        = length (filter (\<lambda>d. \<not> (d = R - p \<or> R < d)) [0..<D])"
    by (simp add: filter_map comp_def)
  also have "\<dots> = card ({d. \<not> (d = R - p \<or> R < d)} \<inter> set [0..<D])"
    by (rule distinct_length_filter) simp
  also have "{d. \<not> (d = R - p \<or> R < d)} \<inter> set [0..<D] = {d. d < D \<and> \<not> (d = R - p \<or> R < d)}"
    by auto
  also have "{d. d < D \<and> \<not> (d = R - p \<or> R < d)} = {..R} - {R - p}"
    using assms by auto
  also have "card ({..R} - {R - p}) = R" by simp
  finally show ?thesis .
qed

lemma npose_le: "R < D \<Longrightarrow> k \<le> R + D \<Longrightarrow> npose D R k \<le> R"
  by (auto simp: npose_def)

lemma ngrid_le: "R < D \<Longrightarrow> k \<le> R + D \<Longrightarrow> ngrid D R k \<le> D"
  by (auto simp: ngrid_def)


lemma ngrid_lt: "R < D \<Longrightarrow> k < R + D \<Longrightarrow> ngrid D R k < D"
  by (auto simp: ngrid_def)

lemma scan_chain_grid:
  assumes "R < D" and "k < R + D"
  shows "scan_axes (chain_grid D R k) D = Some (chain_axis D R k)"
proof -
  have "0 < D - ngrid D R k" using ngrid_lt[OF assms] by simp
  then show ?thesis
    unfolding chain_grid_def chain_axis_def
    using scan_axes_threshold[of "D - ngrid D R k" D D] by simp
qed

lemma chain_axis_lt: "R < D \<Longrightarrow> k < R + D \<Longrightarrow> chain_axis D R k < D"
  using ngrid_lt[of R D k] by (simp add: chain_axis_def)

lemma chain_local_nth:
  "d < D \<Longrightarrow> chain_local D R k ! d = (d = R - npose D R k \<or> R < d)"
  by (simp add: chain_local_def)

lemma chain_grid_nth:
  "d < D \<Longrightarrow> chain_grid D R k ! d = (D - ngrid D R k \<le> d)"
  by (simp add: chain_grid_def)

lemma step_kind:
  assumes "R < D" and "k < R + D"
  shows "chain_local D R k ! chain_axis D R k
         \<longleftrightarrow> (k < D - R \<or> (\<exists>q<R. k = D - R + 2 * q + 1))"
  using assms
proof (cases rule: chain_cases[of R D k])
  case tail
  then show ?thesis
    using assms counts_tail[OF tail] chain_axis_lt[OF assms]
    by (auto simp: chain_local_nth chain_axis_def)
next
  case (transpose q)
  have "\<not> chain_local D R k ! chain_axis D R k"
    using assms transpose counts_transpose[OF assms(1) transpose(2)] chain_axis_lt[OF assms]
    by (auto simp: chain_local_nth chain_axis_def)
  moreover have "\<not> (k < D - R \<or> (\<exists>q<R. k = D - R + 2 * q + 1))"
    using transpose by presburger
  ultimately show ?thesis by simp
next
  case (transform q)
  then show ?thesis
    using assms counts_transform[OF assms(1) transform(2)] chain_axis_lt[OF assms]
    by (auto simp: chain_local_nth chain_axis_def)
qed

lemma transform_facts:
  assumes "R < D" and "k < R + D" and "chain_local D R k ! chain_axis D R k"
  shows "(chain_grid D R k)[chain_axis D R k := True] = chain_grid D R (Suc k)"
    and "chain_local D R (Suc k) = chain_local D R k"
    and "D - ngrid D R (Suc k) = chain_axis D R k"
    and "ngrid D R (Suc k) \<noteq> 0"
proof -
  have nn: "ngrid D R (Suc k) = Suc (ngrid D R k) \<and> npose D R (Suc k) = npose D R k"
    using assms(3) step_kind[OF assms(1,2)] counts_tail[of k D R] counts_transform[OF assms(1)]
    by auto
  have lt: "ngrid D R k < D" using ngrid_lt[OF assms(1,2)] .
  show "(chain_grid D R k)[chain_axis D R k := True] = chain_grid D R (Suc k)"
    unfolding chain_grid_def upd_map_upt using nn lt by (auto simp: chain_axis_def)
  show "chain_local D R (Suc k) = chain_local D R k"
    using nn by (simp add: chain_local_def)
  show "D - ngrid D R (Suc k) = chain_axis D R k"
    using nn lt by (simp add: chain_axis_def)
  show "ngrid D R (Suc k) \<noteq> 0" using nn by simp
qed

lemma transpose_facts:
  assumes "R < D" and "k < R + D" and "\<not> chain_local D R k ! chain_axis D R k"
  shows "chain_axis D R k + 1 < D"
    and "chain_axis D R k < R"
    and "(chain_local D R k)[chain_axis D R k := True, chain_axis D R k + 1 := False]
           = chain_local D R (Suc k)"
    and "chain_grid D R (Suc k) = chain_grid D R k"
    and "ngrid D R (Suc k) = ngrid D R k"
    and "chain_local D R k ! (chain_axis D R k + 1)"
proof -
  obtain q where q: "q < R" "k = D - R + 2 * q"
    using assms(3) step_kind[OF assms(1,2)] chain_cases[OF assms(1,2)] by metis
  have c: "ngrid D R k = D - R + q" "npose D R k = q" "ngrid D R (Suc k) = D - R + q"
    "npose D R (Suc k) = Suc q"
    using counts_transpose[OF assms(1) q(2)] by simp_all
  have ax: "chain_axis D R k = R - q - 1"
    unfolding chain_axis_def c(1) using assms(1) q(1) by arith
  show "chain_axis D R k + 1 < D" unfolding ax using assms(1) q(1) by simp
  show "chain_axis D R k < R" unfolding ax using q(1) by simp
  show "(chain_local D R k)[chain_axis D R k := True, chain_axis D R k + 1 := False]
           = chain_local D R (Suc k)"
    unfolding chain_local_def upd_map_upt c ax using assms(1) q(1) by auto
  show "chain_grid D R (Suc k) = chain_grid D R k" by (simp add: chain_grid_def c)
  show "ngrid D R (Suc k) = ngrid D R k" by (simp add: c)
  show "chain_local D R k ! (chain_axis D R k + 1)"
  proof -
    have "R - q - 1 + 1 = R - q" and "R - q < D" using assms(1) q(1) by arith+
    then show ?thesis unfolding ax by (simp add: chain_local_nth c(2))
  qed
qed

lemma chain_local_count:
  assumes "R < D" and "k \<le> R + D"
  shows "length (filter Not (chain_local D R k)) = R"
  unfolding chain_local_def using assms npose_le[OF assms] by (intro count_distributed) simp_all

lemma chain_local_length: "length (chain_local D R k) = D"
  by (simp add: chain_local_def)

lemma chain_grid_length: "length (chain_grid D R k) = D"
  by (simp add: chain_grid_def)


lemma chain_state_next:
  "chain_state dmn mesh coords (Suc k) =
     \<lparr>st_local = chain_local (dim dmn) (length mesh) (Suc k),
      st_grid_space = chain_grid (dim dmn) (length mesh) (Suc k),
      st_dtype = chain_dtype dmn (length mesh) (Suc k),
      layouts = layouts (chain_state dmn mesh coords k) @ [chain_layout dmn mesh coords (Suc k)],
      paths = paths (chain_state dmn mesh coords k) @ [chain_path dmn mesh coords k],
      layout_i = Some (chain_layout dmn mesh coords (Suc k)),
      path_i = Some (chain_path dmn mesh coords k)\<rparr>"
  by (simp add: chain_state_def)

lemma chain_state_last:
  "last (layouts (chain_state dmn mesh coords k)) = chain_layout dmn mesh coords k"
  by (simp add: chain_state_def)

lemma build_step_chain:
  assumes R: "length mesh < dim dmn" and c: "length coords = length mesh"
    and k: "k < length mesh + dim dmn"
  shows "build_step dmn mesh coords False (Suc k) (chain_state dmn mesh coords k)
           = Inr (chain_state dmn mesh coords (Suc k))"
proof -
  let ?D = "dim dmn" and ?R = "length mesh"
  let ?d = "chain_axis ?D ?R k"
  let ?st = "chain_state dmn mesh coords k"
  have scan: "scan_axes (chain_grid ?D ?R k) ?D = Some ?d"
    by (rule scan_chain_grid[OF R k])
  have loc: "st_local ?st = chain_local ?D ?R k" and gs: "st_grid_space ?st = chain_grid ?D ?R k"
    and dt: "st_dtype ?st = chain_dtype dmn ?R k"
    by (simp_all add: chain_state_def)
  have cnt: "length (filter Not (chain_local ?D ?R (Suc k))) = ?R"
    using chain_local_count[OF R, of "Suc k"] k by simp
  have init: "Layout_init ?D mesh coords (chain_local ?D ?R (Suc k)) (chain_grid ?D ?R (Suc k))
                (chain_dtype dmn ?R (Suc k))
              = Inr ((chain_layout dmn mesh coords (Suc k))\<lparr>index := None\<rparr>)"
    using Layout_init_result[OF chain_local_length cnt c]
    by (simp add: chain_layout_def)
  show ?thesis
  proof (cases "chain_local ?D ?R k ! ?d")
    case True
    note f = transform_facts[OF R k True]
    have dt': "grid_dtype (bases dmn ! ?d) = chain_dtype dmn ?R (Suc k)"
      using f(3,4) by (simp add: chain_dtype_def)
    have p: "chain_path dmn mesh coords k
             = Transform (chain_layout dmn mesh coords k) (chain_layout dmn mesh coords (Suc k)) ?d
                 (bases dmn ! ?d)"
      using True by (simp add: chain_path_def Let_def)
    show ?thesis
      unfolding build_step_def loc gs dt scan chain_state_next
      using True init
      by (simp add: f(1) f(2)[symmetric] dt' p chain_state_last chain_layout_def Let_def chain_state_def)
  next
    case False
    note f = transpose_facts[OF R k False]
    have dt': "chain_dtype dmn ?R (Suc k) = chain_dtype dmn ?R k"
      using f(5) by (simp add: chain_dtype_def)
    have p: "chain_path dmn mesh coords k
             = Transpose (chain_layout dmn mesh coords k) (chain_layout dmn mesh coords (Suc k)) ?d"
      using False by (simp add: chain_path_def Let_def)
    have f3: "(chain_local ?D ?R k)[?d := True, Suc ?d := False] = chain_local ?D ?R (Suc k)"
      using f(3) by simp
    show ?thesis
      unfolding build_step_def loc gs dt scan chain_state_next
      using False init f(1,2)
      by (simp add: f3 f(4)[symmetric] dt'[symmetric] p chain_state_last chain_layout_def
          chain_local_length Transpose_init_def Let_def chain_state_def)
  qed
qed


lemma build_loop_chain:
  assumes R: "length mesh < dim dmn" and c: "length coords = length mesh"
  shows "k + n = length mesh + dim dmn \<Longrightarrow>
         build_loop dmn mesh coords False (Suc k) n (chain_state dmn mesh coords k)
           = Inr (chain_state dmn mesh coords (length mesh + dim dmn))"
proof (induction n arbitrary: k)
  case 0
  then show ?case by simp
next
  case (Suc n)
  have k: "k < length mesh + dim dmn" using Suc.prems by simp
  have "Suc k + n = length mesh + dim dmn" using Suc.prems by simp
  then show ?case using Suc.IH[of "Suc k"] build_step_chain[OF R c k] by simp
qed

lemma chain_local_first:
  "R < D \<Longrightarrow> chain_local D R 0 = replicate R False @ replicate (D - R) True"
  by (auto simp: chain_local_def npose_def list_eq_iff_nth_eq nth_append)

lemma chain_grid_first: "chain_grid D R 0 = replicate D False"
  by (auto simp: chain_grid_def ngrid_def list_eq_iff_nth_eq)

lemma counts_last: "R < D \<Longrightarrow> ngrid D R (R + D) = D \<and> npose D R (R + D) = R"
  by (auto simp: ngrid_def npose_def)

lemma chain_grid_final: "R < D \<Longrightarrow> chain_grid D R (R + D) = replicate D True"
  by (auto simp: chain_grid_def counts_last list_eq_iff_nth_eq)

lemma chain_local_final:
  "R < D \<Longrightarrow> chain_local D R (R + D) = True # replicate R False @ replicate (D - R - 1) True"
  by (auto simp: chain_local_def counts_last list_eq_iff_nth_eq nth_append nth_Cons split: nat.splits)

lemma build_layouts_chain:
  assumes R: "length mesh < dim dmn" and c: "length coords = length mesh"
  shows "build_layouts dmn mesh coords False
           = Inr (chain_state dmn mesh coords (length mesh + dim dmn))"
proof -
  let ?D = "dim dmn" and ?R = "length mesh"
  have ne: "bases dmn \<noteq> []" using R by (auto simp: dim_def)
  have cnt: "length (filter Not (chain_local ?D ?R 0)) = ?R"
    using chain_local_count[OF R, of 0] by simp
  have init: "Layout_init ?D mesh coords (chain_local ?D ?R 0) (chain_grid ?D ?R 0)
                (chain_dtype dmn ?R 0)
              = Inr ((chain_layout dmn mesh coords 0)\<lparr>index := None\<rparr>)"
    using Layout_init_result[OF chain_local_length cnt c]
    by (simp add: chain_layout_def)
  have dt: "coeff_dtype (last (bases dmn)) = chain_dtype dmn ?R 0"
    by (simp add: chain_dtype_def ngrid_def)
  have st0: "\<lparr>st_local = chain_local ?D ?R 0, st_grid_space = chain_grid ?D ?R 0,
              st_dtype = chain_dtype dmn ?R 0,
              layouts = [(chain_layout dmn mesh coords 0)\<lparr>index := None, index := Some 0\<rparr>],
              paths = [], layout_i = None, path_i = None\<rparr>
            = chain_state dmn mesh coords 0"
    by (simp add: chain_state_def chain_layout_def)
  show ?thesis
    unfolding build_layouts_def Let_def
      chain_local_first[OF R, symmetric] chain_grid_first[of ?D ?R, symmetric] dt
    using ne init st0 build_loop_chain[OF R c, of 0 "?R + ?D"]
    by simp
qed

lemma Distributor_init_chain:
  assumes "mesh = filter (\<lambda>i. 1 < i) mesh0" and "length mesh < dim dmn"
    and "prod_list mesh = nproc" and "length coords = length mesh"
  shows "Distributor_init dmn mesh0 nproc coords
           = Inr (chain_state dmn mesh coords (length mesh + dim dmn))"
  using assms build_layouts_chain[OF assms(2,4)]
  by (simp add: Distributor_init_def Let_def)

lemma chain_state_layouts_nth:
  "i \<le> k \<Longrightarrow> layouts (chain_state dmn mesh coords k) ! i = chain_layout dmn mesh coords i"
  by (simp add: chain_state_def nth_map_upt del: upt_Suc)

lemma chain_state_paths_nth:
  "i < k \<Longrightarrow> paths (chain_state dmn mesh coords k) ! i = chain_path dmn mesh coords i"
  by (simp add: chain_state_def)

text \<open>
  C1. For a domain of dimension \<open>D\<close> and a mesh whose entries above 1 form \<open>R < D\<close>
  dimensions (with the matching process count and rank coordinates), the distributor is
  built without error and has exactly \<open>R + D + 1\<close> layouts, layout \<open>i\<close> carrying index \<open>i\<close>,
  and exactly \<open>R + D\<close> paths. Layout 0 has \<open>local = [False]*R + [True]*(D-R)\<close> and
  \<open>grid_space = [False]*D\<close>; layout \<open>R + D\<close> is in grid space on every axis, with axis 0
  local, axes \<open>1..R\<close> distributed and the remaining axes local.
\<close>

theorem layout_chain_structure:
  assumes "mesh = filter (\<lambda>i. 1 < i) mesh0" and "R = length mesh" and "D = dim dmn"
    and "R < D" and "prod_list mesh = nproc" and "length coords = R"
  shows "\<exists>st. Distributor_init dmn mesh0 nproc coords = Inr st
            \<and> length (layouts st) = R + D + 1
            \<and> (\<forall>i \<le> R + D. index (layouts st ! i) = Some i)
            \<and> length (paths st) = R + D
            \<and> local (layouts st ! 0) = replicate R False @ replicate (D - R) True
            \<and> grid_space (layouts st ! 0) = replicate D False
            \<and> grid_space (layouts st ! (R + D)) = replicate D True
            \<and> local (layouts st ! (R + D))
                  = True # replicate R False @ replicate (D - R - 1) True"
proof -
  let ?st = "chain_state dmn mesh coords (R + D)"
  have RD: "length mesh < dim dmn" using assms by simp
  have init: "Distributor_init dmn mesh0 nproc coords = Inr ?st"
    using Distributor_init_chain[OF assms(1) RD assms(5)] assms by simp
  have n: "\<And>i. i \<le> R + D \<Longrightarrow> layouts ?st ! i = chain_layout dmn mesh coords i"
    by (rule chain_state_layouts_nth)
  have "length (layouts ?st) = R + D + 1" by (simp add: chain_state_def)
  moreover have "\<forall>i \<le> R + D. index (layouts ?st ! i) = Some i"
    by (simp add: n chain_layout_def)
  moreover have "length (paths ?st) = R + D" by (simp add: chain_state_def)
  moreover have "local (layouts ?st ! 0) = replicate R False @ replicate (D - R) True"
    unfolding n[of 0, simplified] chain_local_first[OF assms(4), symmetric]
    by (simp add: chain_layout_def assms(2,3))
  moreover have "grid_space (layouts ?st ! 0) = replicate D False"
    unfolding n[of 0, simplified] chain_grid_first[of D R, symmetric]
    by (simp add: chain_layout_def assms(2,3))
  moreover have "grid_space (layouts ?st ! (R + D)) = replicate D True"
    unfolding n[of "R + D", simplified] chain_grid_final[OF assms(4), symmetric]
    by (simp add: chain_layout_def assms(2,3))
  moreover have "local (layouts ?st ! (R + D))
                  = True # replicate R False @ replicate (D - R - 1) True"
    unfolding n[of "R + D", simplified] chain_local_final[OF assms(4), symmetric]
    by (simp add: chain_layout_def assms(2,3))
  ultimately show ?thesis using init by blast
qed


theorem layout_chain_structure_witness:
  "\<exists>st. Distributor_init example_domain3 [4, 1] 4 [2] = Inr st
        \<and> length (layouts st) = 5
        \<and> (\<forall>i \<le> 4. index (layouts st ! i) = Some i)
        \<and> length (paths st) = 4
        \<and> local (layouts st ! 0) = [False, True, True]
        \<and> grid_space (layouts st ! 0) = [False, False, False]
        \<and> grid_space (layouts st ! 4) = [True, True, True]
        \<and> local (layouts st ! 4) = [True, False, True]"
  using layout_chain_structure [of "[4]" "[4, 1]" 1 3 example_domain3 4 "[2]"]
  by (simp add: dim_def example_domain3_def eval_nat_numeral)

subsection \<open>Adjacent layouts\<close>

lemma transform_not_transpose:
  "is_transform_step a b \<Longrightarrow> \<not> is_transpose_step a b"
proof
  assume t: "is_transform_step a b" and p: "is_transpose_step a b"
  from t have same: "local b = local a" by (auto simp: is_transform_step_def)
  from p obtain d where d: "d < length (local a) - 1" "\<not> local a ! d"
    "local b = (local a)[d := True, d + 1 := False]"
    by (auto simp: is_transpose_step_def)
  have "local b ! d = True" using d(1) by (simp add: d(3) nth_list_update)
  then show False using same d(2) by simp
qed

lemma chain_transform_step:
  assumes "R < D" and "k < R + D" and "chain_local D R k ! chain_axis D R k"
    and "local a = chain_local D R k" and "grid_space a = chain_grid D R k"
    and "local b = chain_local D R (Suc k)" and "grid_space b = chain_grid D R (Suc k)"
  shows "is_transform_step a b"
proof -
  let ?d = "chain_axis D R k"
  note f = transform_facts[OF assms(1-3)]
  have d: "?d < D" by (rule chain_axis_lt[OF assms(1,2)])
  have "\<not> chain_grid D R k ! ?d"
    using d ngrid_lt[OF assms(1,2)] by (simp add: chain_grid_nth) (simp add: chain_axis_def)
  then show ?thesis
    unfolding is_transform_step_def assms(4-7)
    using d assms(3) f(1,2) by (auto simp: chain_grid_length)
qed

lemma chain_transpose_step:
  assumes "R < D" and "k < R + D" and "\<not> chain_local D R k ! chain_axis D R k"
    and "local a = chain_local D R k" and "grid_space a = chain_grid D R k"
    and "local b = chain_local D R (Suc k)" and "grid_space b = chain_grid D R (Suc k)"
    and "dtype b = dtype a"
  shows "is_transpose_step a b"
proof -
  let ?d = "chain_axis D R k"
  note f = transpose_facts[OF assms(1-3)]
  have "?d < D - 1" using f(1) by simp
  then show ?thesis
    unfolding is_transpose_step_def assms(4-7)
    using assms(3,8) f(3,4,6) by (auto simp: chain_local_length)
qed

text \<open>
  C2. Under the same conditions, every two consecutive layouts of the chain differ by
  exactly one atomic change: either a transform step (one \<open>grid_space[d]\<close> goes from false
  to true on an axis that is local, the locality flags are unchanged, the dtype is free)
  and the path between them is a \<open>Transform\<close>, or a transpose step (\<open>local[d]\<close> goes from
  false to true, \<open>local[d+1]\<close> from true to false, every other flag and the dtype are
  unchanged) and the path between them is a \<open>Transpose\<close>; never both.
\<close>

theorem layout_chain_adjacent:
  assumes "mesh = filter (\<lambda>i. 1 < i) mesh0" and "R = length mesh" and "D = dim dmn"
    and "R < D" and "prod_list mesh = nproc" and "length coords = R"
  shows "\<exists>st. Distributor_init dmn mesh0 nproc coords = Inr st
            \<and> (\<forall>i < R + D.
                  (is_transform_step (layouts st ! i) (layouts st ! Suc i)
                     \<and> \<not> is_transpose_step (layouts st ! i) (layouts st ! Suc i)
                     \<and> (\<exists>d bs. paths st ! i = Transform (layouts st ! i) (layouts st ! Suc i) d bs))
                \<or> (is_transpose_step (layouts st ! i) (layouts st ! Suc i)
                     \<and> \<not> is_transform_step (layouts st ! i) (layouts st ! Suc i)
                     \<and> (\<exists>d. paths st ! i = Transpose (layouts st ! i) (layouts st ! Suc i) d)))"
proof -
  let ?st = "chain_state dmn mesh coords (R + D)"
  have RD: "length mesh < dim dmn" using assms by simp
  have init: "Distributor_init dmn mesh0 nproc coords = Inr ?st"
    using Distributor_init_chain[OF assms(1) RD assms(5)] assms by simp
  have step: "(is_transform_step (layouts ?st ! i) (layouts ?st ! Suc i)
                     \<and> \<not> is_transpose_step (layouts ?st ! i) (layouts ?st ! Suc i)
                     \<and> (\<exists>d bs. paths ?st ! i = Transform (layouts ?st ! i) (layouts ?st ! Suc i) d bs))
                \<or> (is_transpose_step (layouts ?st ! i) (layouts ?st ! Suc i)
                     \<and> \<not> is_transform_step (layouts ?st ! i) (layouts ?st ! Suc i)
                     \<and> (\<exists>d. paths ?st ! i = Transpose (layouts ?st ! i) (layouts ?st ! Suc i) d))"
    if i: "i < R + D" for i
  proof -
    let ?a = "chain_layout dmn mesh coords i" and ?b = "chain_layout dmn mesh coords (Suc i)"
    have a: "layouts ?st ! i = ?a" and b: "layouts ?st ! Suc i = ?b"
      using i by (simp_all add: chain_state_layouts_nth)
    have p: "paths ?st ! i = chain_path dmn mesh coords i"
      using i by (rule chain_state_paths_nth)
    have la: "local ?a = chain_local D R i" "grid_space ?a = chain_grid D R i"
      and lb: "local ?b = chain_local D R (Suc i)" "grid_space ?b = chain_grid D R (Suc i)"
      by (simp_all add: chain_layout_def assms(2,3))
    show ?thesis
    proof (cases "chain_local D R i ! chain_axis D R i")
      case True
      have t: "is_transform_step ?a ?b"
        by (rule chain_transform_step[OF assms(4) i True la lb])
      have "chain_path dmn mesh coords i
              = Transform ?a ?b (chain_axis D R i) (bases dmn ! chain_axis D R i)"
        using True by (simp add: chain_path_def Let_def assms(2,3))
      then show ?thesis unfolding a b p using t transform_not_transpose[OF t] by blast
    next
      case False
      have "ngrid D R (Suc i) = ngrid D R i" by (rule transpose_facts(5)[OF assms(4) i False])
      then have dt: "dtype ?b = dtype ?a" by (simp add: chain_layout_def chain_dtype_def assms(2,3))
      have t: "is_transpose_step ?a ?b"
        by (rule chain_transpose_step[OF assms(4) i False la lb dt])
      have "chain_path dmn mesh coords i = Transpose ?a ?b (chain_axis D R i)"
        using False by (simp add: chain_path_def Let_def assms(2,3))
      then show ?thesis unfolding a b p using t transform_not_transpose[of ?a ?b] by blast
    qed
  qed
  show ?thesis using init step by blast
qed


theorem layout_chain_adjacent_witness:
  "\<exists>st. Distributor_init example_domain3 [4, 1] 4 [2] = Inr st
        \<and> (\<forall>i < 4.
              (is_transform_step (layouts st ! i) (layouts st ! Suc i)
                 \<and> \<not> is_transpose_step (layouts st ! i) (layouts st ! Suc i)
                 \<and> (\<exists>d bs. paths st ! i = Transform (layouts st ! i) (layouts st ! Suc i) d bs))
            \<or> (is_transpose_step (layouts st ! i) (layouts st ! Suc i)
                 \<and> \<not> is_transform_step (layouts st ! i) (layouts st ! Suc i)
                 \<and> (\<exists>d. paths st ! i = Transpose (layouts st ! i) (layouts st ! Suc i) d)))"
  using layout_chain_adjacent [of "[4]" "[4, 1]" 1 3 example_domain3 4 "[2]"]
  by (simp add: dim_def example_domain3_def)

section \<open>Round trips through a transform\<close>

subsection \<open>The kernels on small grids\<close>








lemma dft_length: "length (dft w x) = length x"
  by (simp add: dft_def)









subsection \<open>From coefficients to the grid and back\<close>

















end
